theory Spec2Isabelle
  imports Main "HOL-Library.Char_ord" "HOL-Library.List_Lexorder" "HOL-Library.Multiset"
begin

section \<open>Strings and pure paths\<close>

text \<open>
  The merger of \<^verbatim>\<open>archivemaster.py\<close> works on \<^verbatim>\<open>pathlib.Path\<close> values and on
  member names, which are plain strings. This section models the operations of Python's
  \<^verbatim>\<open>str\<close> and \<^verbatim>\<open>pathlib.PurePosixPath\<close> the merger calls: \<^verbatim>\<open>lower\<close>, \<^verbatim>\<open>endswith\<close>,
  \<^verbatim>\<open>split\<close>, the parsing of a string into a path, \<^verbatim>\<open>/\<close>, \<^verbatim>\<open>parent\<close>, \<^verbatim>\<open>name\<close>,
  \<^verbatim>\<open>suffix\<close>, \<^verbatim>\<open>relative_to\<close>, the ordering of paths and \<^verbatim>\<open>str\<close>.
\<close>

definition ascii_lower :: "char \<Rightarrow> char" where
  "ascii_lower c =
     (let n = (of_char c :: nat) in if 65 \<le> n \<and> n \<le> 90 then char_of (n + 32) else c)"

definition lower :: "string \<Rightarrow> string" where
  "lower s = map ascii_lower s"

definition endswith :: "string \<Rightarrow> string \<Rightarrow> bool" where
  "endswith s t = (length t \<le> length s \<and> drop (length s - length t) s = t)"

text \<open>\<^verbatim>\<open>s.split(c)\<close>: the pieces between the occurrences of \<open>c\<close>, empty pieces kept.\<close>

fun split_on :: "char \<Rightarrow> string \<Rightarrow> string list" where
  "split_on c [] = [[]]"
| "split_on c (x # xs) =
     (if x = c then [] # split_on c xs
      else (case split_on c xs of [] \<Rightarrow> [[x]] | y # ys \<Rightarrow> (x # y) # ys))"

text \<open>\<^verbatim>\<open>sep.join(xs)\<close>.\<close>

fun join_sep :: "string \<Rightarrow> string list \<Rightarrow> string" where
  "join_sep sep [] = []"
| "join_sep sep [x] = x"
| "join_sep sep (x # y # ys) = x @ sep @ join_sep sep (y # ys)"

text \<open>
  \<^verbatim>\<open>s.rfind(c)\<close>: the index of the last occurrence of \<open>c\<close>, or \<open>-1\<close>.
\<close>

definition rfind :: "char \<Rightarrow> string \<Rightarrow> int" where
  "rfind c s =
     (if c \<in> set s then int (length s) - 1 - int (length (takeWhile (\<lambda>x. x \<noteq> c) (rev s)))
      else - 1)"

text \<open>
  A pure POSIX path: its anchor (\<open>''''\<close> for a relative path, \<open>''/''\<close> or \<open>''//''\<close>) and
  its components. Parsing splits at \<open>/\<close> and drops the empty components and the
  components \<open>.\<close>; it keeps \<open>..\<close>. Exactly two leading slashes give the anchor \<open>//\<close>.
\<close>

datatype path = Path (anchor: string) (parts: "string list")

definition splitroot :: "string \<Rightarrow> string" where
  "splitroot s =
     (let n = length (takeWhile (\<lambda>c. c = CHR ''/'') s)
      in if n = 0 then [] else if n = 2 then ''//'' else ''/'')"

definition PurePath :: "string \<Rightarrow> path" where
  "PurePath s = Path (splitroot s) (filter (\<lambda>p. p \<noteq> [] \<and> p \<noteq> ''.'') (split_on CHR ''/'' s))"

text \<open>\<^verbatim>\<open>p / s\<close>: an anchored right operand replaces the left one.\<close>

definition joinpath :: "path \<Rightarrow> string \<Rightarrow> path" where
  "joinpath p s =
     (let q = PurePath s
      in if anchor q \<noteq> [] then q else Path (anchor p) (parts p @ parts q))"

definition parent :: "path \<Rightarrow> path" where
  "parent p = Path (anchor p) (butlast (parts p))"

definition name :: "path \<Rightarrow> string" where
  "name p = (if parts p = [] then [] else last (parts p))"

text \<open>
  \<^verbatim>\<open>Path.suffix\<close>: with \<open>i = name.rfind('.')\<close>, the text \<open>name[i:]\<close> when
  \<open>0 < i < len(name) - 1\<close>, else the empty string. It is the last suffix only.
\<close>

definition suffix :: "path \<Rightarrow> string" where
  "suffix p =
     (let nm = name p; i = rfind CHR ''.'' nm
      in if 0 < i \<and> i < int (length nm) - 1 then drop (nat i) nm else [])"

text \<open>\<^verbatim>\<open>str(p)\<close>.\<close>

definition path_str :: "path \<Rightarrow> string" where
  "path_str p =
     (if anchor p = [] \<and> parts p = [] then ''.'' else anchor p @ join_sep ''/'' (parts p))"

text \<open>
  The key by which \<^verbatim>\<open>sorted\<close> compares two paths: the anchor, when there is one, then the
  components, compared as lists of strings (component by component, not as one string).
  Python 3.12 and later compare \<^verbatim>\<open>str(p).split('/')\<close> instead, which orders any two paths
  with the same non-empty anchor in the same way.
\<close>

definition cparts :: "path \<Rightarrow> string list" where
  "cparts p = (if anchor p = [] then parts p else anchor p # parts p)"

section \<open>Errors\<close>

text \<open>
  Every exception the merger can meet is a value: the archive library cannot open a file
  (\<open>BadArchive\<close>), the \<^verbatim>\<open>ValueError\<close> of \<^verbatim>\<open>process_archives\<close> for an extension it does not
  know (\<open>UnsupportedFormat\<close>), the \<^verbatim>\<open>ValueError\<close> of \<^verbatim>\<open>relative_to\<close> (\<open>NotRelative\<close>), an
  \<^verbatim>\<open>OSError\<close> of the file system at a location (\<open>OSError\<close>), the \<^verbatim>\<open>TypeError\<close> of using
  \<^verbatim>\<open>temp_dir\<close> while it is \<^verbatim>\<open>None\<close>, the \<^verbatim>\<open>KeyError\<close> of opening a member by a name the
  archive does not have, and the \<^verbatim>\<open>RecursionError\<close> of the interpreter when a descent into
  nested directories goes deeper than its limit.
\<close>

type_synonym key = "string list"

datatype error =
    BadArchive path
  | UnsupportedFormat string
  | NotRelative path "path option"
  | OSError key
  | TypeError
  | KeyError string
  | RecursionError

text \<open>
  \<^verbatim>\<open>p.relative_to(other)\<close> is lexical: the anchors agree and the components of \<open>other\<close>
  are a prefix of those of \<open>p\<close>, else \<^verbatim>\<open>ValueError\<close>.
\<close>

definition relative_to :: "path \<Rightarrow> path \<Rightarrow> error + path" where
  "relative_to p other =
     (if anchor p = anchor other \<and> take (length (parts other)) (parts p) = parts other
      then Inr (Path [] (drop (length (parts other)) (parts p)))
      else Inl (NotRelative p (Some other)))"

section \<open>The file system\<close>

text \<open>
  A file holds opaque bytes or a container of one of the three formats, whose members carry
  file data in turn. A ZIP or RAR container is the list of its entries (name, data), in the
  order \<^verbatim>\<open>namelist()\<close> returns them; a directory entry has a name ending in \<open>/\<close>. A TAR
  container is the list of its members (name, \<^verbatim>\<open>isfile()\<close>, data), in the order of
  \<^verbatim>\<open>getmembers()\<close>. A container also records how it was compressed.
\<close>

datatype zip_comp = ZIP_STORED | ZIP_DEFLATED int

datatype tar_comp = TarPlain | TarGz | TarBz2

datatype fdata =
    Bytes string
  | ZipData zip_comp "(string \<times> fdata) list"
  | RarData "(string \<times> fdata) list"
  | TarData tar_comp "(string \<times> bool \<times> fdata) list"

datatype node = Dir | File fdata

text \<open>
  The world outside the merger: the working directory and the nodes of the file system,
  by location. A location is the list of the components from the root; there are no
  symbolic links, so a path resolves lexically: \<open>..\<close> steps to the parent, and the parent
  of the root is the root.
\<close>

record world =
  cwd :: key
  nodes :: "key \<Rightarrow> node option"

fun walk_step :: "key \<Rightarrow> string \<Rightarrow> key" where
  "walk_step k c = (if c = ''..'' then butlast k else k @ [c])"

definition start_dir :: "world \<Rightarrow> path \<Rightarrow> key" where
  "start_dir w p = (if anchor p = [] then cwd w else [])"

definition resolve :: "world \<Rightarrow> path \<Rightarrow> key" where
  "resolve w p = foldl walk_step (start_dir w p) (parts p)"

text \<open>
  The directories a lookup passes through: the one each component is looked up in, the
  starting directory first.
\<close>

fun trail :: "key \<Rightarrow> string list \<Rightarrow> key list" where
  "trail k [] = []"
| "trail k (c # cs) = k # trail (walk_step k c) cs"

definition is_dir :: "world \<Rightarrow> key \<Rightarrow> bool" where
  "is_dir w k = (nodes w k = Some Dir)"

definition traversable :: "world \<Rightarrow> path \<Rightarrow> bool" where
  "traversable w p = list_all (is_dir w) (trail (start_dir w p) (parts p))"

text \<open>\<^verbatim>\<open>os.stat(p)\<close>: the node at a path, when every directory on the way exists.\<close>

definition lookup :: "world \<Rightarrow> path \<Rightarrow> node option" where
  "lookup w p = (if traversable w p then nodes w (resolve w p) else None)"

text \<open>\<^verbatim>\<open>p.exists()\<close>.\<close>

definition path_exists :: "world \<Rightarrow> path \<Rightarrow> bool" where
  "path_exists w p = (lookup w p \<noteq> None)"

definition put :: "key \<Rightarrow> node \<Rightarrow> world \<Rightarrow> world" where
  "put k n w = w\<lparr>nodes := (nodes w)(k \<mapsto> n)\<rparr>"

text \<open>
  \<^verbatim>\<open>p.mkdir(parents=True, exist_ok=True)\<close>: every directory on the way to \<open>p\<close>, and \<open>p\<close>
  itself, is created when missing, from the top; a regular file in the way raises, and the
  directories created before it stay.
\<close>

fun ensure_dirs :: "key list \<Rightarrow> world \<Rightarrow> (error + unit) \<times> world" where
  "ensure_dirs [] w = (Inr (), w)"
| "ensure_dirs (k # ks) w =
     (case nodes w k of
        Some (File d) \<Rightarrow> (Inl (OSError k), w)
      | _ \<Rightarrow> ensure_dirs ks (put k Dir w))"

definition mkdir_parents :: "path \<Rightarrow> world \<Rightarrow> (error + unit) \<times> world" where
  "mkdir_parents p w = ensure_dirs (trail (start_dir w p) (parts p) @ [resolve w p]) w"

text \<open>
  \<^verbatim>\<open>open(p, 'wb')\<close> followed by writing the data \<open>d\<close>: the file is created or replaced. It
  raises when \<open>p\<close> names a directory (no component, a last component \<open>..\<close>, or a directory
  at its location) or when a directory on the way is missing.
\<close>

definition open_wb :: "path \<Rightarrow> fdata \<Rightarrow> world \<Rightarrow> (error + unit) \<times> world" where
  "open_wb p d w =
     (let k = resolve w p
      in if parts p = [] then (Inl (OSError k), w)
         else if last (parts p) = ''..'' then (Inl (OSError k), w)
         else if traversable w p then
           (if nodes w k = Some Dir then (Inl (OSError k), w) else (Inr (), put k (File d) w))
         else (Inl (OSError k), w))"

text \<open>
  Opening an archive for reading: the file at the path must hold a container of the
  format the library reads, whatever the file is called.
\<close>

definition open_zip :: "path \<Rightarrow> world \<Rightarrow> error + (string \<times> fdata) list" where
  "open_zip p w =
     (case lookup w p of Some (File (ZipData c es)) \<Rightarrow> Inr es | _ \<Rightarrow> Inl (BadArchive p))"

definition open_rar :: "path \<Rightarrow> world \<Rightarrow> error + (string \<times> fdata) list" where
  "open_rar p w =
     (case lookup w p of Some (File (RarData es)) \<Rightarrow> Inr es | _ \<Rightarrow> Inl (BadArchive p))"

definition open_tar :: "path \<Rightarrow> world \<Rightarrow> error + (string \<times> bool \<times> fdata) list" where
  "open_tar p w =
     (case lookup w p of Some (File (TarData c ms)) \<Rightarrow> Inr ms | _ \<Rightarrow> Inl (BadArchive p))"

text \<open>
  \<^verbatim>\<open>zf.open(member)\<close> and \<^verbatim>\<open>rf.open(member)\<close> find a member by its name; of several entries
  with one name the library keeps the last.
\<close>

definition member_data :: "(string \<times> fdata) list \<Rightarrow> string \<Rightarrow> fdata option" where
  "member_data es member = map_of (rev es) member"

section \<open>The merger\<close>

text \<open>The fields of \<^verbatim>\<open>ArchiveMerger\<close> (the lock apart).\<close>

record merger =
  output_path :: path
  compression_level :: int
  temp_dir :: "path option"
  extracted_files :: "path list"
  total_files :: nat
  processed_files :: nat

definition ArchiveMerger :: "path \<Rightarrow> int \<Rightarrow> merger" where
  "ArchiveMerger out level =
     \<lparr>output_path = out, compression_level = level, temp_dir = None,
      extracted_files = [], total_files = 0, processed_files = 0\<rparr>"

text \<open>
  \<^verbatim>\<open>__enter__\<close>: \<^verbatim>\<open>tempfile.mkdtemp\<close> creates a directory and returns its path; the path it
  chooses is the argument \<open>fresh\<close>.
\<close>

definition enter :: "merger \<Rightarrow> path \<Rightarrow> world \<Rightarrow> merger \<times> world" where
  "enter m fresh w = (m\<lparr>temp_dir := Some fresh\<rparr>, put (resolve w fresh) Dir w)"

text \<open>
  \<^verbatim>\<open>shutil.rmtree(d, ignore_errors=True)\<close> removes what is below \<open>d\<close>, then \<open>d\<close>. Whether a
  removal succeeds is decided outside the file system as it is modelled here, so the answer
  of the platform is a parameter of the call:

  \<^item> \<open>Refuses rs\<close>: the operating system refuses to remove the locations \<open>rs\<close> (a
    permission, a file in use), and no other. With \<^verbatim>\<open>ignore_errors=True\<close> each \<^verbatim>\<open>OSError\<close> is
    swallowed and the pass goes on: a location goes unless it is refused or a directory
    that still holds something, so the locations that stay are the refused ones that exist
    and the directories above them. \<open>Refuses []\<close> is the platform that removes everything.

  \<^item> \<open>Overflows gone\<close>: the descent exceeds the recursion limit of the interpreter after the
    locations \<open>gone\<close> below \<open>d\<close> were removed. \<^verbatim>\<open>RecursionError\<close> is no \<^verbatim>\<open>OSError\<close>:
    \<^verbatim>\<open>ignore_errors\<close> does not swallow it, it is raised, and \<open>d\<close> itself is not removed.
\<close>

datatype removal = Refuses "key list" | Overflows "key list"

definition rmtree :: "removal \<Rightarrow> key \<Rightarrow> world \<Rightarrow> error option \<times> world" where
  "rmtree rm k w =
     (case rm of
        Refuses rs \<Rightarrow>
          (None,
           w\<lparr>nodes :=
               (\<lambda>k'. if take (length k) k' = k
                         \<and> \<not> list_ex (\<lambda>r. take (length k') r = k' \<and> nodes w r \<noteq> None) rs
                      then None else nodes w k')\<rparr>)
      | Overflows gone \<Rightarrow>
          (Some RecursionError,
           w\<lparr>nodes :=
               (\<lambda>k'. if take (length k) k' = k \<and> k' \<noteq> k \<and> k' \<in> set gone
                      then None else nodes w k')\<rparr>))"

text \<open>
  \<^verbatim>\<open>__exit__\<close>: the removal is attempted when the temporary directory is set and exists.
  \<^verbatim>\<open>__exit__\<close> returns nothing, so that an exception of the body goes on; an exception of
  the removal is raised from \<^verbatim>\<open>__exit__\<close> itself.
\<close>

definition exit_merger :: "removal \<Rightarrow> merger \<Rightarrow> world \<Rightarrow> error option \<times> world" where
  "exit_merger rm m w =
     (case temp_dir m of
        None \<Rightarrow> (None, w)
      | Some d \<Rightarrow> if path_exists w d then rmtree rm (resolve w d) w else (None, w))"

subsection \<open>Extraction\<close>

text \<open>
  The loop of \<^verbatim>\<open>extract_rar\<close> and of \<^verbatim>\<open>extract_zip\<close> over \<^verbatim>\<open>namelist()\<close>: a name ending in
  \<open>/\<close> is skipped; any other is appended to \<^verbatim>\<open>extracted\<close>, its target is the temporary
  directory joined with the name as it is, the parent of the target is created, and the
  member is copied to the target. An exception leaves what was written so far.
\<close>

fun extract_entries ::
  "path option \<Rightarrow> (string \<times> fdata) list \<Rightarrow> string list \<Rightarrow> string list \<Rightarrow> world
     \<Rightarrow> (error + string list) \<times> world" where
  "extract_entries td es [] extracted w = (Inr extracted, w)"
| "extract_entries td es (member # ms) extracted w =
     (if endswith member ''/'' then extract_entries td es ms extracted w
      else
        (case td of
           None \<Rightarrow> (Inl TypeError, w)
         | Some d \<Rightarrow>
             (let target_path = joinpath d member
              in case mkdir_parents (parent target_path) w of
                   (Inl e, w1) \<Rightarrow> (Inl e, w1)
                 | (Inr u, w1) \<Rightarrow>
                     (case member_data es member of
                        None \<Rightarrow> (Inl (KeyError member), w1)
                      | Some src \<Rightarrow>
                          (case open_wb target_path src w1 of
                             (Inl e, w2) \<Rightarrow> (Inl e, w2)
                           | (Inr u', w2) \<Rightarrow>
                               extract_entries td es ms (extracted @ [member]) w2)))))"

definition extract_rar :: "merger \<Rightarrow> path \<Rightarrow> world \<Rightarrow> (error + string list) \<times> world" where
  "extract_rar m rar_path w =
     (case open_rar rar_path w of
        Inl e \<Rightarrow> (Inl e, w)
      | Inr es \<Rightarrow> extract_entries (temp_dir m) es (map fst es) [] w)"

definition extract_zip :: "merger \<Rightarrow> path \<Rightarrow> world \<Rightarrow> (error + string list) \<times> world" where
  "extract_zip m zip_path w =
     (case open_zip zip_path w of
        Inl e \<Rightarrow> (Inl e, w)
      | Inr es \<Rightarrow> extract_entries (temp_dir m) es (map fst es) [] w)"

text \<open>
  The loop of \<^verbatim>\<open>extract_tar\<close> over \<^verbatim>\<open>getmembers()\<close>: a member that is not a regular file
  is skipped. \<^verbatim>\<open>tf.extract(member, self.temp_dir)\<close> is the library's unfiltered
  extraction: it writes the member's data at the temporary directory joined with the
  member's name.
\<close>

fun extract_members ::
  "path option \<Rightarrow> (string \<times> bool \<times> fdata) list \<Rightarrow> string list \<Rightarrow> world
     \<Rightarrow> (error + string list) \<times> world" where
  "extract_members td [] extracted w = (Inr extracted, w)"
| "extract_members td ((nm, isfile, src) # ms) extracted w =
     (if isfile then
        (case td of
           None \<Rightarrow> (Inl TypeError, w)
         | Some d \<Rightarrow>
             (let target_path = joinpath d nm
              in case mkdir_parents (parent target_path) w of
                   (Inl e, w1) \<Rightarrow> (Inl e, w1)
                 | (Inr u, w1) \<Rightarrow>
                     (case open_wb target_path src w1 of
                        (Inl e, w2) \<Rightarrow> (Inl e, w2)
                      | (Inr u', w2) \<Rightarrow> extract_members td ms (extracted @ [nm]) w2)))
      else extract_members td ms extracted w)"

definition extract_tar :: "merger \<Rightarrow> path \<Rightarrow> world \<Rightarrow> (error + string list) \<times> world" where
  "extract_tar m tar_path w =
     (case open_tar tar_path w of
        Inl e \<Rightarrow> (Inl e, w)
      | Inr ms \<Rightarrow> extract_members (temp_dir m) ms [] w)"

subsection \<open>Writing the output\<close>

text \<open>
  \<^verbatim>\<open>os.path.normpath\<close>, which the ZIP library applies to the name of a member it writes:
  empty components and \<open>.\<close> go, and \<open>..\<close> cancels the component before it.
\<close>

fun normpath_comps :: "bool \<Rightarrow> string list \<Rightarrow> string list \<Rightarrow> string list" where
  "normpath_comps rooted [] new_comps = new_comps"
| "normpath_comps rooted (cpt # cs) new_comps =
     (if cpt = [] then normpath_comps rooted cs new_comps
      else if cpt = ''.'' then normpath_comps rooted cs new_comps
      else if cpt = ''..'' then
        (if new_comps = [] then
           (if rooted then normpath_comps rooted cs new_comps
            else normpath_comps rooted cs (new_comps @ [cpt]))
         else if last new_comps = ''..'' then normpath_comps rooted cs (new_comps @ [cpt])
         else normpath_comps rooted cs (butlast new_comps))
      else normpath_comps rooted cs (new_comps @ [cpt]))"

definition normpath :: "string \<Rightarrow> string" where
  "normpath s =
     (let initial_slashes = splitroot s;
          comps = normpath_comps (initial_slashes \<noteq> []) (split_on CHR ''/'' s) [];
          p = initial_slashes @ join_sep ''/'' comps
      in if p = [] then ''.'' else p)"

text \<open>
  The name under which a member is stored: \<^verbatim>\<open>zf.write(file_path, relative_path)\<close> stores
  the normalised path without leading slashes, \<^verbatim>\<open>tf.add(file_path, arcname=relative_path)\<close>
  the path without leading slashes.
\<close>

definition zip_arcname :: "path \<Rightarrow> string" where
  "zip_arcname relative_path = dropWhile (\<lambda>c. c = CHR ''/'') (normpath (path_str relative_path))"

definition tar_arcname :: "path \<Rightarrow> string" where
  "tar_arcname relative_path = dropWhile (\<lambda>c. c = CHR ''/'') (path_str relative_path)"

text \<open>\<^verbatim>\<open>os.path.abspath\<close>, by which the TAR library recognises the archive it is writing.\<close>

definition abspath :: "world \<Rightarrow> path \<Rightarrow> string \<times> key" where
  "abspath w p = (if anchor p = ''//'' then ''//'' else ''/'', resolve w p)"

text \<open>
  The loop \<^verbatim>\<open>for file_path in sorted(self.extracted_files)\<close> of the ZIP branch. The open
  archive \<open>zf\<close> collects the entries; \<^verbatim>\<open>relative_to\<close> may raise, and so may reading a file
  that is not there. A directory is stored as an entry of its own, with a name ending
  in \<open>/\<close>.
\<close>

fun zip_write_all ::
  "world \<Rightarrow> path option \<Rightarrow> path list \<Rightarrow> (string \<times> fdata) list
     \<Rightarrow> error option \<times> (string \<times> fdata) list" where
  "zip_write_all w td [] zf = (None, zf)"
| "zip_write_all w td (file_path # rest) zf =
     (case td of
        None \<Rightarrow> (Some TypeError, zf)
      | Some d \<Rightarrow>
          (case relative_to file_path d of
             Inl e \<Rightarrow> (Some e, zf)
           | Inr relative_path \<Rightarrow>
               (case lookup w file_path of
                  None \<Rightarrow> (Some (OSError (resolve w file_path)), zf)
                | Some Dir \<Rightarrow>
                    zip_write_all w td rest (zf @ [(zip_arcname relative_path @ ''/'', Bytes [])])
                | Some (File src) \<Rightarrow>
                    zip_write_all w td rest (zf @ [(zip_arcname relative_path, src)]))))"

text \<open>
  The same loop of the three TAR branches. \<^verbatim>\<open>tf.add\<close> skips a file that is the archive
  being written. A directory is stored as a member that is not a regular file (the
  library would go on to add what the directory holds; the merger records regular files
  only).
\<close>

fun tar_add_all ::
  "world \<Rightarrow> path \<Rightarrow> path option \<Rightarrow> path list \<Rightarrow> (string \<times> bool \<times> fdata) list
     \<Rightarrow> error option \<times> (string \<times> bool \<times> fdata) list" where
  "tar_add_all w out td [] tf = (None, tf)"
| "tar_add_all w out td (file_path # rest) tf =
     (case td of
        None \<Rightarrow> (Some TypeError, tf)
      | Some d \<Rightarrow>
          (case relative_to file_path d of
             Inl e \<Rightarrow> (Some e, tf)
           | Inr relative_path \<Rightarrow>
               (if abspath w file_path = abspath w out then tar_add_all w out td rest tf
                else
                  (case lookup w file_path of
                     None \<Rightarrow> (Some (OSError (resolve w file_path)), tf)
                   | Some Dir \<Rightarrow>
                       tar_add_all w out td rest (tf @ [(tar_arcname relative_path, False, Bytes [])])
                   | Some (File src) \<Rightarrow>
                       tar_add_all w out td rest (tf @ [(tar_arcname relative_path, True, src)])))))"

text \<open>
  Opening the output creates or truncates it; leaving the \<^verbatim>\<open>with\<close> block closes it with
  the members added so far, also when the loop raised.
\<close>

definition zip_output :: "merger \<Rightarrow> zip_comp \<Rightarrow> world \<Rightarrow> (error + unit) \<times> world" where
  "zip_output m c w =
     (case open_wb (output_path m) (ZipData c []) w of
        (Inl e, w1) \<Rightarrow> (Inl e, w1)
      | (Inr u, w1) \<Rightarrow>
          (case zip_write_all w1 (temp_dir m) (sort_key cparts (extracted_files m)) [] of
             (Some e, zf) \<Rightarrow> (Inl e, put (resolve w1 (output_path m)) (File (ZipData c zf)) w1)
           | (None, zf) \<Rightarrow> (Inr (), put (resolve w1 (output_path m)) (File (ZipData c zf)) w1)))"

definition tar_output :: "merger \<Rightarrow> tar_comp \<Rightarrow> world \<Rightarrow> (error + unit) \<times> world" where
  "tar_output m c w =
     (case open_wb (output_path m) (TarData c []) w of
        (Inl e, w1) \<Rightarrow> (Inl e, w1)
      | (Inr u, w1) \<Rightarrow>
          (case tar_add_all w1 (output_path m) (temp_dir m)
                  (sort_key cparts (extracted_files m)) [] of
             (Some e, tf) \<Rightarrow> (Inl e, put (resolve w1 (output_path m)) (File (TarData c tf)) w1)
           | (None, tf) \<Rightarrow> (Inr (), put (resolve w1 (output_path m)) (File (TarData c tf)) w1)))"

text \<open>
  \<^verbatim>\<open>create_output_archive\<close>: ZIP is written deflated at the merger's level; \<open>tar\<close> is
  written gzip-compressed when the compression argument is \<open>gzip\<close> and plain otherwise;
  \<open>tar.gz\<close> and \<open>tar.bz2\<close> fix the compression. Any other type writes nothing.
\<close>

definition create_output_archive ::
  "merger \<Rightarrow> string \<Rightarrow> string \<Rightarrow> world \<Rightarrow> (error + unit) \<times> world" where
  "create_output_archive m archive_type compression w =
     (if archive_type = ''zip'' then zip_output m (ZIP_DEFLATED (compression_level m)) w
      else if archive_type = ''tar'' then
        tar_output m (if compression = ''gzip'' then TarGz else TarPlain) w
      else if archive_type = ''tar.gz'' then tar_output m TarGz w
      else if archive_type = ''tar.bz2'' then tar_output m TarBz2 w
      else (Inr (), w))"

subsection \<open>The merge\<close>

definition tar_suffixes :: "string list" where
  "tar_suffixes = [''.tar'', ''.tgz'', ''.tar.gz'', ''.tbz2'', ''.tar.bz2'']"

definition is_file_name :: "string \<Rightarrow> bool" where
  "is_file_name member = (\<not> endswith member ''/'')"

text \<open>
  The first loop of \<^verbatim>\<open>process_archives\<close>, which counts the members to come. An extension
  it does not know is passed over.
\<close>

fun count_total :: "world \<Rightarrow> path list \<Rightarrow> nat \<Rightarrow> error + nat" where
  "count_total w [] acc = Inr acc"
| "count_total w (archive_path # rest) acc =
     (if lower (suffix archive_path) = ''.rar'' then
        (case open_rar archive_path w of
           Inl e \<Rightarrow> Inl e
         | Inr es \<Rightarrow> count_total w rest (acc + length (filter is_file_name (map fst es))))
      else if lower (suffix archive_path) = ''.zip'' then
        (case open_zip archive_path w of
           Inl e \<Rightarrow> Inl e
         | Inr es \<Rightarrow> count_total w rest (acc + length (filter is_file_name (map fst es))))
      else if lower (suffix archive_path) \<in> set tar_suffixes then
        (case open_tar archive_path w of
           Inl e \<Rightarrow> Inl e
         | Inr ms \<Rightarrow> count_total w rest (acc + length (filter (\<lambda>m. fst (snd m)) ms)))
      else count_total w rest acc)"

text \<open>
  The choice of the extraction by the extension, in the second loop: \<^verbatim>\<open>ValueError\<close> for
  an extension that is none of the seven.
\<close>

definition extract_archive :: "merger \<Rightarrow> path \<Rightarrow> world \<Rightarrow> (error + string list) \<times> world" where
  "extract_archive m archive_path w =
     (let ext = lower (suffix archive_path)
      in if ext = ''.rar'' then extract_rar m archive_path w
         else if ext = ''.zip'' then extract_zip m archive_path w
         else if ext \<in> set tar_suffixes then extract_tar m archive_path w
         else (Inl (UnsupportedFormat ext), w))"

text \<open>
  The loop \<^verbatim>\<open>for fname in extracted\<close>: the full path of a name is recorded when it
  exists.
\<close>

fun record_files ::
  "path option \<Rightarrow> world \<Rightarrow> string list \<Rightarrow> path list \<Rightarrow> error option \<times> path list" where
  "record_files td w [] files = (None, files)"
| "record_files td w (fname # rest) files =
     (case td of
        None \<Rightarrow> (Some TypeError, files)
      | Some d \<Rightarrow>
          (let full_path = joinpath d fname
           in if path_exists w full_path then record_files td w rest (files @ [full_path])
              else record_files td w rest files))"

text \<open>The second loop of \<^verbatim>\<open>process_archives\<close>, over the archives in their order.\<close>

fun extract_archives :: "path list \<Rightarrow> merger \<Rightarrow> world \<Rightarrow> (error + unit) \<times> merger \<times> world" where
  "extract_archives [] m w = (Inr (), m, w)"
| "extract_archives (archive_path # rest) m w =
     (case extract_archive m archive_path w of
        (Inl e, w1) \<Rightarrow> (Inl e, m, w1)
      | (Inr extracted, w1) \<Rightarrow>
          (case record_files (temp_dir m) w1 extracted (extracted_files m) of
             (Some e, files) \<Rightarrow> (Inl e, m\<lparr>extracted_files := files\<rparr>, w1)
           | (None, files) \<Rightarrow>
               extract_archives rest
                 (m\<lparr>extracted_files := files,
                    processed_files := processed_files m + length extracted\<rparr>) w1))"

text \<open>
  The summary \<^verbatim>\<open>process_archives\<close> returns. The elapsed time and the size of the output in
  bytes are left out: they depend on the clock and on the codec.
\<close>

record result =
  success :: bool
  output_file :: path
  total_input_files :: nat
  total_extracted_files :: nat

definition process_archives ::
  "merger \<Rightarrow> path list \<Rightarrow> string \<Rightarrow> string \<Rightarrow> world \<Rightarrow> (error + result) \<times> merger \<times> world" where
  "process_archives m archive_paths output_type compression w =
     (let m1 = m\<lparr>extracted_files := []\<rparr>
      in case count_total w archive_paths 0 of
           Inl e \<Rightarrow> (Inl e, m1, w)
         | Inr total_count \<Rightarrow>
             (case extract_archives archive_paths
                     (m1\<lparr>total_files := total_count, processed_files := 0\<rparr>) w of
                (Inl e, m2, w2) \<Rightarrow> (Inl e, m2, w2)
              | (Inr u, m2, w2) \<Rightarrow>
                  (case create_output_archive m2 output_type compression w2 of
                     (Inl e, w3) \<Rightarrow> (Inl e, m2, w3)
                   | (Inr u', w3) \<Rightarrow>
                       (case lookup w3 (output_path m2) of
                          None \<Rightarrow> (Inl (OSError (resolve w3 (output_path m2))), m2, w3)
                        | Some n \<Rightarrow>
                            (Inr \<lparr>success = True, output_file = output_path m2,
                                  total_input_files = length archive_paths,
                                  total_extracted_files = length (extracted_files m2)\<rparr>,
                             m2, w3)))))"

text \<open>
  The block \<^verbatim>\<open>with ArchiveMerger(output_path, level) as merger:\<close>
  \<^verbatim>\<open>merger.process_archives(...)\<close> of both callers, \<^verbatim>\<open>cli_mode\<close> and \<^verbatim>\<open>_merge_thread\<close>. First
  the part up to the end of the body: \<^verbatim>\<open>__enter__\<close>, then \<^verbatim>\<open>process_archives\<close>.
\<close>

definition merge_body ::
  "path \<Rightarrow> int \<Rightarrow> path \<Rightarrow> path list \<Rightarrow> string \<Rightarrow> string \<Rightarrow> world
     \<Rightarrow> (error + result) \<times> merger \<times> world" where
  "merge_body out level fresh archive_paths output_type compression w =
     (case enter (ArchiveMerger out level) fresh w of
        (m, w1) \<Rightarrow> process_archives m archive_paths output_type compression w1)"

text \<open>
  The whole block: \<^verbatim>\<open>__exit__\<close> runs whether the body returned or raised, and what the body
  returned or raised is the outcome of the block, unless \<^verbatim>\<open>__exit__\<close> raises itself.
\<close>

definition with_ArchiveMerger ::
  "removal \<Rightarrow> path \<Rightarrow> int \<Rightarrow> path \<Rightarrow> path list \<Rightarrow> string \<Rightarrow> string \<Rightarrow> world
     \<Rightarrow> (error + result) \<times> world" where
  "with_ArchiveMerger rm out level fresh archive_paths output_type compression w =
     (case merge_body out level fresh archive_paths output_type compression w of
        (r, m2, w2) \<Rightarrow>
          (case exit_merger rm m2 w2 of
             (None, w3) \<Rightarrow> (r, w3)
           | (Some e, w3) \<Rightarrow> (Inl e, w3)))"

section \<open>What an archive holds\<close>



text \<open>The seven extensions the two passes of \<^verbatim>\<open>process_archives\<close> compare with.\<close>

definition known_suffixes :: "string list" where
  "known_suffixes = [''.rar'', ''.zip''] @ tar_suffixes"

text \<open>
  The names an archive gives for its members that are not directories, as the merger
  lists them: by the extension of the archive, and none for an archive it cannot open.
\<close>

definition file_names :: "world \<Rightarrow> path \<Rightarrow> string list" where
  "file_names w archive_path =
     (let ext = lower (suffix archive_path)
      in if ext = ''.rar'' then
           (case open_rar archive_path w of
              Inl e \<Rightarrow> [] | Inr es \<Rightarrow> filter is_file_name (map fst es))
         else if ext = ''.zip'' then
           (case open_zip archive_path w of
              Inl e \<Rightarrow> [] | Inr es \<Rightarrow> filter is_file_name (map fst es))
         else if ext \<in> set tar_suffixes then
           (case open_tar archive_path w of
              Inl e \<Rightarrow> [] | Inr ms \<Rightarrow> map fst (filter (\<lambda>m. fst (snd m)) ms))
         else [])"


text \<open>
  A later state of the file system in which nothing was removed: the working directory is
  the same, every directory is still a directory and every regular file still a regular
  file, perhaps with other data.
\<close>

definition grows :: "world \<Rightarrow> world \<Rightarrow> bool" where
  "grows w w' =
     (cwd w' = cwd w
      \<and> (\<forall>k. nodes w k = Some Dir \<longrightarrow> nodes w' k = Some Dir)
      \<and> (\<forall>k d. nodes w k = Some (File d) \<longrightarrow> (\<exists>d'. nodes w' k = Some (File d'))))"


text \<open>
  An input that cannot be read: its extension is one of the seven, and the library of the
  format the extension stands for does not open the file (it is missing, a directory, or no
  archive of that format).
\<close>

definition unreadable :: "world \<Rightarrow> path \<Rightarrow> bool" where
  "unreadable w archive_path =
     (let ext = lower (suffix archive_path)
      in if ext = ''.rar'' then
           (case open_rar archive_path w of Inl e \<Rightarrow> True | Inr es \<Rightarrow> False)
         else if ext = ''.zip'' then
           (case open_zip archive_path w of Inl e \<Rightarrow> True | Inr es \<Rightarrow> False)
         else if ext \<in> set tar_suffixes then
           (case open_tar archive_path w of Inl e \<Rightarrow> True | Inr ms \<Rightarrow> False)
         else False)"

section \<open>An example world\<close>

text \<open>
  A working directory \<open>/home\<close> with the archives of the examples: \<open>a.zip\<close> holds \<open>x.txt\<close>
  with content \<open>1\<close>; \<open>b.tar.gz\<close> and \<open>b.tgz\<close> are the same gzip-compressed TAR, holding
  \<open>x.txt\<close> with content \<open>2\<close> and \<open>y.txt\<close> with content \<open>3\<close>; \<open>c.zip\<close> holds \<open>x.txt\<close> with
  content \<open>9\<close>; \<open>abs.zip\<close> holds a member with an absolute name and \<open>up.rar\<close> one whose name
  begins with \<open>..\<close>; \<open>notes.7z\<close> is a file of an unknown format.
\<close>

definition ex_world :: world where
  "ex_world =
     \<lparr>cwd = [''home''],
      nodes =
        [[] \<mapsto> Dir, [''home''] \<mapsto> Dir, [''tmp''] \<mapsto> Dir, [''etc''] \<mapsto> Dir,
         [''home'', ''a.zip''] \<mapsto> File (ZipData ZIP_STORED [(''x.txt'', Bytes ''1'')]),
         [''home'', ''b.tar.gz''] \<mapsto>
           File (TarData TarGz [(''x.txt'', True, Bytes ''2''), (''y.txt'', True, Bytes ''3'')]),
         [''home'', ''b.tgz''] \<mapsto>
           File (TarData TarGz [(''x.txt'', True, Bytes ''2''), (''y.txt'', True, Bytes ''3'')]),
         [''home'', ''c.zip''] \<mapsto> File (ZipData ZIP_STORED [(''x.txt'', Bytes ''9'')]),
         [''home'', ''abs.zip''] \<mapsto> File (ZipData ZIP_STORED [(''/etc/motd'', Bytes ''x'')]),
         [''home'', ''up.rar''] \<mapsto> File (RarData [(''../up.txt'', Bytes ''y'')]),
         [''home'', ''notes.7z''] \<mapsto> File (Bytes ''7z'')]\<rparr>"

definition ex_temp :: path where
  "ex_temp = Path ''/'' [''tmp'', ''archivemaster_k3'']"

definition ex_out :: path where
  "ex_out = Path [] [''out.zip'']"

text \<open>The merger and the world after \<^verbatim>\<open>__enter__\<close>.\<close>

definition ex_merger :: merger where
  "ex_merger = fst (enter (ArchiveMerger ex_out 6) ex_temp ex_world)"

definition ex_entered :: world where
  "ex_entered = snd (enter (ArchiveMerger ex_out 6) ex_temp ex_world)"

text \<open>
  The same world with one more archive: the only member of \<open>e.zip\<close> is \<open>x.txt/y\<close>, which
  needs a directory where \<open>a.zip\<close> puts the file \<open>x.txt\<close>.
\<close>

definition ex_clash :: world where
  "ex_clash =
     ex_entered\<lparr>nodes := (nodes ex_entered)
        ([''home'', ''e.zip''] \<mapsto> File (ZipData ZIP_STORED [(''x.txt/y'', Bytes ''2'')]))\<rparr>"

text \<open>A merger, entered in the example world, whose output path is the directory \<open>/etc\<close>.\<close>

definition ex_merger_etc :: merger where
  "ex_merger_etc = fst (enter (ArchiveMerger (Path ''/'' [''etc'']) 6) ex_temp ex_world)"

section \<open>Properties\<close>


lemma ascii_lower_dot: "ascii_lower c = CHR ''.'' \<longleftrightarrow> c = CHR ''.''"
proof
  assume h: "ascii_lower c = CHR ''.''"
  show "c = CHR ''.''"
  proof (cases "65 \<le> (of_char c :: nat) \<and> (of_char c :: nat) \<le> 90")
    case True
    then have "ascii_lower c = char_of ((of_char c :: nat) + 32)"
      by (simp add: ascii_lower_def Let_def)
    then have "(of_char (ascii_lower c) :: nat) = ((of_char c :: nat) + 32) mod 256"
      by (simp add: of_char_of)
    moreover have "(of_char (ascii_lower c) :: nat) = 46" using h by simp
    ultimately show ?thesis using True by auto
  next
    case False
    then show ?thesis using h by (auto simp: ascii_lower_def Let_def)
  qed
next
  assume "c = CHR ''.''"
  then show "ascii_lower c = CHR ''.''" by (simp add: ascii_lower_def Let_def)
qed

lemma length_lower: "length (lower s) = length s" by (simp add: lower_def)

lemma lower_append: "lower (a @ b) = lower a @ lower b" by (simp add: lower_def)

lemma lower_drop: "lower (drop n s) = drop n (lower s)" by (simp add: lower_def drop_map)

lemma lower_eq_Cons: "lower s = x # t \<Longrightarrow> \<exists>c u. s = c # u \<and> ascii_lower c = x \<and> lower u = t"
  by (cases s) (auto simp: lower_def)

text \<open>A name whose lower-case form ends in a dot followed by dot-free, non-empty text e, preceded by at least one char\<close>
lemma rfind_last_dot:
  assumes "s = a @ CHR ''.'' # e" "CHR ''.'' \<notin> set e"
  shows "rfind CHR ''.'' s = int (length a)"
proof -
  have "rev s = rev e @ CHR ''.'' # rev a" using assms by simp
  moreover have "takeWhile (\<lambda>x. x \<noteq> CHR ''.'') (rev e @ CHR ''.'' # rev a)
      = rev e @ takeWhile (\<lambda>x. x \<noteq> CHR ''.'') (CHR ''.'' # rev a)"
    using assms(2) by (intro takeWhile_append2) auto
  ultimately have "takeWhile (\<lambda>x. x \<noteq> CHR ''.'') (rev s) = rev e"
    by simp
  then show ?thesis using assms by (simp add: rfind_def)
qed

lemma suffix_last:
  assumes "name p = a @ CHR ''.'' # e" "CHR ''.'' \<notin> set e" "a \<noteq> []" "e \<noteq> []"
  shows "suffix p = CHR ''.'' # e"
proof -
  have "rfind CHR ''.'' (name p) = int (length a)" using rfind_last_dot[OF assms(1,2)] .
  then show ?thesis using assms by (simp add: suffix_def Let_def)
qed

lemma lower_dot_free: "CHR ''.'' \<notin> set (lower e) \<Longrightarrow> CHR ''.'' \<notin> set e"
  by (auto simp: lower_def image_iff) (metis ascii_lower_dot)

lemma endswith_split: "endswith s t \<Longrightarrow> \<exists>a. s = a @ t"
  by (metis append_take_drop_id endswith_def)

lemma lower_split:
  assumes "lower s = a' @ b'"
  shows "\<exists>a b. s = a @ b \<and> lower a = a' \<and> lower b = b'"
proof -
  have "s = take (length a') s @ drop (length a') s" by simp
  moreover have "lower (take (length a') s) = a'" using assms by (simp add: lower_def take_map[symmetric])
  moreover have "lower (drop (length a') s) = b'" using assms by (simp add: lower_def drop_map[symmetric])
  ultimately show ?thesis by blast
qed

lemma suffix_of_double:
  assumes "endswith (lower (name p)) (CHR ''.'' # t @ CHR ''.'' # e)" "CHR ''.'' \<notin> set e" "e \<noteq> []"
  shows "lower (suffix p) = CHR ''.'' # e"
proof -
  obtain a' where a': "lower (name p) = a' @ (CHR ''.'' # t @ CHR ''.'' # e)"
    using endswith_split[OF assms(1)] by blast
  then have "lower (name p) = (a' @ CHR ''.'' # t) @ (CHR ''.'' # e)" by simp
  then obtain a b where ab: "name p = a @ b" "lower a = a' @ CHR ''.'' # t" "lower b = CHR ''.'' # e"
    using lower_split by blast
  obtain c u where cu: "b = c # u" "ascii_lower c = CHR ''.''" "lower u = e"
    using lower_eq_Cons[OF ab(3)] by blast
  have c: "c = CHR ''.''" using cu(2) by (simp add: ascii_lower_dot)
  have "CHR ''.'' \<notin> set u" using cu(3) assms(2) lower_dot_free by blast
  moreover have "a \<noteq> []" using ab(2) by (auto simp: lower_def)
  moreover have "u \<noteq> []" using cu(3) assms(3) by (auto simp: lower_def)
  ultimately have "suffix p = CHR ''.'' # u"
    using suffix_last[of p a u] ab(1) cu(1) c by simp
  then show ?thesis using cu(3) by (simp add: lower_def ascii_lower_def Let_def)
qed

lemma suffix_tar_gz: "endswith (lower (name p)) ''.tar.gz'' \<Longrightarrow> lower (suffix p) = ''.gz''"
  using suffix_of_double[of p "''tar''" "''gz''"] by simp

lemma suffix_tar_bz2: "endswith (lower (name p)) ''.tar.bz2'' \<Longrightarrow> lower (suffix p) = ''.bz2''"
  using suffix_of_double[of p "''tar''" "''bz2''"] by simp

lemma unsupported_gz: "extract_archive m p w = (Inl (UnsupportedFormat (lower (suffix p))), w)" if "lower (suffix p) = ''.gz'' \<or> lower (suffix p) = ''.bz2''"
  using that by (auto simp: extract_archive_def Let_def tar_suffixes_def)


subsection \<open>The working directory and the merger's fields stay\<close>

lemma cwd_put [simp]: "cwd (put k n w) = cwd w"
  by (simp add: put_def)

lemma nodes_put [simp]: "nodes (put k n w) = (nodes w)(k \<mapsto> n)"
  by (simp add: put_def)

lemma resolve_cwd: "cwd w' = cwd w \<Longrightarrow> resolve w' p = resolve w p"
  by (simp add: resolve_def start_dir_def)

lemma start_dir_cwd: "cwd w' = cwd w \<Longrightarrow> start_dir w' p = start_dir w p"
  by (simp add: start_dir_def)


lemma cwd_ensure_dirs [simp]: "cwd (snd (ensure_dirs ks w)) = cwd w"
  by (induction ks arbitrary: w) (auto split: option.splits node.splits)

lemma cwd_mkdir_parents [simp]: "cwd (snd (mkdir_parents p w)) = cwd w"
  by (simp add: mkdir_parents_def)

lemma cwd_open_wb [simp]: "cwd (snd (open_wb p d w)) = cwd w"
  by (simp add: open_wb_def Let_def)

lemma cwd_extract_entries [simp]: "cwd (snd (extract_entries td es ms ex w)) = cwd w"
proof (induction ms arbitrary: ex w)
  case Nil
  then show ?case by simp
next
  case (Cons member ms)
  show ?case
  proof (cases "endswith member ''/''")
    case True
    then show ?thesis using Cons by simp
  next
    case False
    show ?thesis
    proof (cases td)
      case None
      then show ?thesis using False by simp
    next
      case (Some d)
      obtain r1 w1 where m1: "mkdir_parents (parent (joinpath d member)) w = (r1, w1)"
        by (cases "mkdir_parents (parent (joinpath d member)) w")
      have c1: "cwd w1 = cwd w" using cwd_mkdir_parents[of "parent (joinpath d member)" w] m1 by simp
      show ?thesis
      proof (cases r1)
        case (Inl e)
        then show ?thesis using False Some m1 c1 by simp
      next
        case (Inr u)
        show ?thesis
        proof (cases "member_data es member")
          case None
          then show ?thesis using False Some m1 c1 Inr by simp
        next
          case (Some src)
          obtain r2 w2 where o2: "open_wb (joinpath d member) src w1 = (r2, w2)"
            by (cases "open_wb (joinpath d member) src w1")
          have c2: "cwd w2 = cwd w1" using cwd_open_wb[of "joinpath d member" src w1] o2 by simp
          show ?thesis
            using False \<open>td = Some d\<close> m1 c1 Inr Some o2 c2 Cons.IH[of "ex @ [member]" w2]
            by (cases r2) simp_all
        qed
      qed
    qed
  qed
qed

lemma cwd_extract_members [simp]: "cwd (snd (extract_members td ms ex w)) = cwd w"
proof (induction ms arbitrary: ex w)
  case Nil
  then show ?case by simp
next
  case (Cons mem ms)
  obtain nm isfile src where mem: "mem = (nm, isfile, src)" by (cases mem)
  show ?case
  proof (cases isfile)
    case False
    then show ?thesis using Cons mem by simp
  next
    case True
    show ?thesis
    proof (cases td)
      case None
      then show ?thesis using True mem by simp
    next
      case (Some d)
      obtain r1 w1 where m1: "mkdir_parents (parent (joinpath d nm)) w = (r1, w1)"
        by (cases "mkdir_parents (parent (joinpath d nm)) w")
      have c1: "cwd w1 = cwd w" using cwd_mkdir_parents[of "parent (joinpath d nm)" w] m1 by simp
      show ?thesis
      proof (cases r1)
        case (Inl e)
        then show ?thesis using True Some m1 c1 mem by simp
      next
        case (Inr u)
        obtain r2 w2 where o2: "open_wb (joinpath d nm) src w1 = (r2, w2)"
          by (cases "open_wb (joinpath d nm) src w1")
        have c2: "cwd w2 = cwd w1" using cwd_open_wb[of "joinpath d nm" src w1] o2 by simp
        show ?thesis
          using True Some m1 c1 Inr o2 c2 mem Cons.IH[of "ex @ [nm]" w2]
          by (cases r2) simp_all
      qed
    qed
  qed
qed

lemma cwd_extract_archive [simp]: "cwd (snd (extract_archive m p w)) = cwd w"
  by (auto simp: extract_archive_def Let_def extract_rar_def extract_zip_def extract_tar_def
      split: sum.splits)

lemma extract_archives_fields:
  "temp_dir (fst (snd (extract_archives ps m w))) = temp_dir m
   \<and> output_path (fst (snd (extract_archives ps m w))) = output_path m
   \<and> compression_level (fst (snd (extract_archives ps m w))) = compression_level m
   \<and> cwd (snd (snd (extract_archives ps m w))) = cwd w"
proof (induction ps arbitrary: m w)
  case Nil
  then show ?case by simp
next
  case (Cons p ps)
  obtain r1 w1 where e1: "extract_archive m p w = (r1, w1)" by (cases "extract_archive m p w")
  have c1: "cwd w1 = cwd w" using cwd_extract_archive[of m p w] e1 by simp
  show ?case
  proof (cases r1)
    case (Inl e)
    then show ?thesis using e1 c1 by simp
  next
    case (Inr extracted)
    obtain err files where rf: "record_files (temp_dir m) w1 extracted (extracted_files m) = (err, files)"
      by (cases "record_files (temp_dir m) w1 extracted (extracted_files m)")
    show ?thesis
    proof (cases err)
      case None
      then show ?thesis
        using e1 c1 Inr rf
          Cons.IH[of "m\<lparr>extracted_files := files, processed_files := processed_files m + length extracted\<rparr>" w1]
        by simp
    next
      case (Some e)
      then show ?thesis using e1 c1 Inr rf by simp
    qed
  qed
qed

lemma cwd_zip_output [simp]: "cwd (snd (zip_output m c w)) = cwd w"
proof -
  obtain r1 w1 where o: "open_wb (output_path m) (ZipData c []) w = (r1, w1)"
    by (cases "open_wb (output_path m) (ZipData c []) w")
  have "cwd w1 = cwd w" using cwd_open_wb[of "output_path m" "ZipData c []" w] o by simp
  then show ?thesis using o
    by (cases r1) (auto simp: zip_output_def split: prod.splits option.splits)
qed

lemma cwd_tar_output [simp]: "cwd (snd (tar_output m c w)) = cwd w"
proof -
  obtain r1 w1 where o: "open_wb (output_path m) (TarData c []) w = (r1, w1)"
    by (cases "open_wb (output_path m) (TarData c []) w")
  have "cwd w1 = cwd w" using cwd_open_wb[of "output_path m" "TarData c []" w] o by simp
  then show ?thesis using o
    by (cases r1) (auto simp: tar_output_def split: prod.splits option.splits)
qed

lemma cwd_create_output_archive [simp]: "cwd (snd (create_output_archive m t c w)) = cwd w"
  by (simp add: create_output_archive_def)

lemma process_archives_fields:
  "temp_dir (fst (snd (process_archives m ps t c w))) = temp_dir m
   \<and> output_path (fst (snd (process_archives m ps t c w))) = output_path m
   \<and> cwd (snd (snd (process_archives m ps t c w))) = cwd w"
proof (cases "count_total w ps 0")
  case (Inl e)
  then show ?thesis by (simp add: process_archives_def)
next
  case (Inr n)
  define m1 where "m1 = m\<lparr>extracted_files := [], total_files := n, processed_files := 0\<rparr>"
  obtain r2 m2 w2 where ex: "extract_archives ps m1 w = (r2, m2, w2)"
    by (cases "extract_archives ps m1 w") auto
  have f2: "temp_dir m2 = temp_dir m" "output_path m2 = output_path m" "cwd w2 = cwd w"
    using extract_archives_fields[of ps m1 w] ex by (simp_all add: m1_def)
  show ?thesis
  proof (cases r2)
    case (Inl e)
    then show ?thesis using Inr ex f2 by (simp add: process_archives_def m1_def)
  next
    case r2: (Inr u)
    obtain r3 w3 where cr: "create_output_archive m2 t c w2 = (r3, w3)"
      by (cases "create_output_archive m2 t c w2")
    have c3: "cwd w3 = cwd w2" using cwd_create_output_archive[of m2 t c w2] cr by simp
    show ?thesis using Inr ex f2 r2 cr c3
      by (cases r3) (auto simp: process_archives_def m1_def split: option.splits)
  qed
qed


subsection \<open>Double extensions\<close>

lemma count_total_unknown:
  "lower (suffix p) \<notin> set known_suffixes \<Longrightarrow> count_total w (p # ps) n = count_total w ps n"
  by (simp add: known_suffixes_def)

lemma extract_archive_unknown:
  "lower (suffix p) \<notin> set known_suffixes \<Longrightarrow>
   extract_archive m p w = (Inl (UnsupportedFormat (lower (suffix p))), w)"
  by (simp add: known_suffixes_def extract_archive_def Let_def)

lemma process_archives_single_unknown:
  assumes "lower (suffix p) \<notin> set known_suffixes"
  shows "fst (process_archives m [p] t c w) = Inl (UnsupportedFormat (lower (suffix p)))"
  using count_total_unknown[OF assms, of w "[]" 0] extract_archive_unknown[OF assms]
  by (simp add: process_archives_def)

lemma double_suffix_unknown:
  assumes "endswith (lower (name p)) ''.tar.gz'' \<or> endswith (lower (name p)) ''.tar.bz2''"
  shows "lower (suffix p) \<notin> set known_suffixes"
  using assms suffix_tar_gz[of p] suffix_tar_bz2[of p]
  by (auto simp: known_suffixes_def tar_suffixes_def)

text \<open>
  C1. The claim is that an archive whose name ends in \<open>.tar.gz\<close> or \<open>.tar.bz2\<close>, in any case,
  is counted and extracted as a TAR archive. The code compares the last suffix only, which
  for such a name is \<open>.gz\<close> or \<open>.bz2\<close>: the count passes the archive over, the extraction
  raises the \<^verbatim>\<open>ValueError\<close> for an unsupported format without touching the file system, and
  so does \<^verbatim>\<open>process_archives\<close> on that archive alone.
\<close>

theorem double_suffix_unsupported:
  assumes "endswith (lower (name p)) ''.tar.gz'' \<or> endswith (lower (name p)) ''.tar.bz2''"
  shows "count_total w [p] n = Inr n
       \<and> extract_archive m p w = (Inl (UnsupportedFormat (lower (suffix p))), w)
       \<and> fst (process_archives m [p] t c w) = Inl (UnsupportedFormat (lower (suffix p)))"
proof -
  have u: "lower (suffix p) \<notin> set known_suffixes" using assms by (rule double_suffix_unknown)
  show ?thesis
    using count_total_unknown[OF u, of w "[]" n] extract_archive_unknown[OF u]
      process_archives_single_unknown[OF u]
    by simp
qed

theorem double_suffix_unsupported_witness:
  "endswith (lower (name (Path [] [''b.tar.gz'']))) ''.tar.gz''
   \<and> count_total ex_entered [Path [] [''b.tar.gz'']] 0 = Inr 0
   \<and> fst (process_archives ex_merger [Path [] [''b.tar.gz'']] ''zip'' ''deflate'' ex_entered)
       = Inl (UnsupportedFormat ''.gz'')"
proof -
  have h: "endswith (lower (name (Path [] [''b.tar.gz'']))) ''.tar.gz''" by code_simp
  have s: "lower (suffix (Path [] [''b.tar.gz''])) = ''.gz''" by code_simp
  show ?thesis
    using h s double_suffix_unsupported[OF disjI1[OF h], of ex_entered 0 ex_merger "''zip''" "''deflate''"]
    by simp
qed

subsection \<open>The example scenario\<close>



subsection \<open>The count of extracted files\<close>


subsection \<open>Targets outside the temporary directory\<close>

lemma joinpath_absolute: "joinpath td (CHR ''/'' # s) = PurePath (CHR ''/'' # s)"
  by (simp add: joinpath_def PurePath_def splitroot_def Let_def)

text \<open>
  C10. The target of a member is the temporary directory joined with the member's name as it
  is: for every name that begins with a slash the join is the name itself, whatever the
  temporary directory. In the example world, extracting \<open>abs.zip\<close> writes \<open>/etc/motd\<close> and
  extracting \<open>up.rar\<close> writes \<open>/tmp/up.txt\<close>, both outside the temporary directory
  \<open>/tmp/archivemaster_k3\<close>, and neither file was there before.
\<close>

theorem extraction_escapes_root:
  "(\<forall>td s. joinpath td (CHR ''/'' # s) = PurePath (CHR ''/'' # s))
   \<and> resolve ex_entered ex_temp = [''tmp'', ''archivemaster_k3'']
   \<and> fst (extract_zip ex_merger (Path [] [''abs.zip'']) ex_entered) = Inr [''/etc/motd'']
   \<and> nodes (snd (extract_zip ex_merger (Path [] [''abs.zip'']) ex_entered)) [''etc'', ''motd'']
       = Some (File (Bytes ''x''))
   \<and> fst (extract_rar ex_merger (Path [] [''up.rar'']) ex_entered) = Inr [''../up.txt'']
   \<and> nodes (snd (extract_rar ex_merger (Path [] [''up.rar'']) ex_entered)) [''tmp'', ''up.txt'']
       = Some (File (Bytes ''y''))
   \<and> nodes ex_entered [''etc'', ''motd''] = None
   \<and> nodes ex_entered [''tmp'', ''up.txt''] = None"
proof -
  have a: "\<forall>td s. joinpath td (CHR ''/'' # s) = PurePath (CHR ''/'' # s)"
    by (simp add: joinpath_absolute)
  have b: "resolve ex_entered ex_temp = [''tmp'', ''archivemaster_k3'']" by code_simp
  have c: "fst (extract_zip ex_merger (Path [] [''abs.zip'']) ex_entered) = Inr [''/etc/motd'']"
    by code_simp
  have d: "nodes (snd (extract_zip ex_merger (Path [] [''abs.zip'']) ex_entered)) [''etc'', ''motd'']
       = Some (File (Bytes ''x''))" by code_simp
  have e: "fst (extract_rar ex_merger (Path [] [''up.rar'']) ex_entered) = Inr [''../up.txt'']"
    by code_simp
  have f: "nodes (snd (extract_rar ex_merger (Path [] [''up.rar'']) ex_entered)) [''tmp'', ''up.txt'']
       = Some (File (Bytes ''y''))" by code_simp
  have g: "nodes ex_entered [''etc'', ''motd''] = None" by code_simp
  have h: "nodes ex_entered [''tmp'', ''up.txt''] = None" by code_simp
  show ?thesis using a b c d e f g h by blast
qed


subsection \<open>Errors are raised\<close>

lemma extract_archives_unknown:
  "p \<in> set ps \<Longrightarrow> lower (suffix p) \<notin> set known_suffixes \<Longrightarrow>
   \<exists>e. fst (extract_archives ps m w) = Inl e"
proof (induction ps arbitrary: m w)
  case Nil
  then show ?case by simp
next
  case (Cons q qs)
  obtain r1 w1 where e1: "extract_archive m q w = (r1, w1)" by (cases "extract_archive m q w")
  show ?case
  proof (cases r1)
    case (Inl e)
    then show ?thesis using e1 by simp
  next
    case (Inr extracted)
    have "q \<noteq> p" using e1 Inr extract_archive_unknown[OF Cons.prems(2), of m w] by auto
    then have pq: "p \<in> set qs" using Cons.prems(1) by simp
    obtain err files where rf:
      "record_files (temp_dir m) w1 extracted (extracted_files m) = (err, files)"
      by (cases "record_files (temp_dir m) w1 extracted (extracted_files m)")
    show ?thesis
    proof (cases err)
      case None
      then show ?thesis
        using e1 Inr rf Cons.IH[OF pq Cons.prems(2)] by simp
    next
      case (Some e)
      then show ?thesis using e1 Inr rf by simp
    qed
  qed
qed

lemma process_archives_unknown:
  assumes "p \<in> set ps" "lower (suffix p) \<notin> set known_suffixes"
  shows "\<exists>e. fst (process_archives m ps t c w) = Inl e"
proof (cases "count_total w ps 0")
  case (Inl e)
  then show ?thesis by (simp add: process_archives_def)
next
  case (Inr n)
  define m1 where "m1 = m\<lparr>extracted_files := [], total_files := n, processed_files := 0\<rparr>"
  obtain e where e: "fst (extract_archives ps m1 w) = Inl e"
    using extract_archives_unknown[OF assms] by blast
  obtain r2 m2 w2 where ex: "extract_archives ps m1 w = (r2, m2, w2)"
    by (metis prod_cases3)
  then have "r2 = Inl e" using e by simp
  then show ?thesis using Inr ex by (simp add: process_archives_def m1_def)
qed

lemma process_archives_success:
  assumes "process_archives m ps t c w = (Inr r, m', w')"
  shows "success r \<and> total_input_files r = length ps
         \<and> total_extracted_files r = length (extracted_files m')
         \<and> output_file r = output_path m'"
  using assms
  by (auto simp: process_archives_def Let_def split: sum.splits prod.splits option.splits)

lemma count_total_Cons:
  "count_total w (q # qs) acc
     = (if unreadable w q then Inl (BadArchive q)
        else count_total w qs (acc + length (file_names w q)))"
  by (auto simp: unreadable_def file_names_def Let_def open_rar_def open_zip_def open_tar_def
      split: option.splits node.splits fdata.splits)

lemma count_total_unreadable:
  "p \<in> set ps \<Longrightarrow> unreadable w p \<Longrightarrow> \<exists>q\<in>set ps. count_total w ps acc = Inl (BadArchive q)"
proof (induction ps arbitrary: acc)
  case Nil
  then show ?case by simp
next
  case (Cons q qs)
  show ?case
  proof (cases "unreadable w q")
    case True
    then have "count_total w (q # qs) acc = Inl (BadArchive q)" by (simp only: count_total_Cons if_True)
    then show ?thesis by auto
  next
    case False
    then have pq: "p \<in> set qs" using Cons.prems by auto
    have "count_total w (q # qs) acc = count_total w qs (acc + length (file_names w q))"
      using False by (simp only: count_total_Cons if_False)
    then show ?thesis using Cons.IH[OF pq Cons.prems(2), of "acc + length (file_names w q)"] by auto
  qed
qed

lemma process_archives_unreadable:
  assumes "p \<in> set ps" "unreadable w p"
  shows "\<exists>q\<in>set ps. process_archives m ps t c w
           = (Inl (BadArchive q), m\<lparr>extracted_files := []\<rparr>, w)"
proof -
  obtain q where "q \<in> set ps" "count_total w ps 0 = Inl (BadArchive q)"
    using count_total_unreadable[OF assms] by blast
  then show ?thesis by (auto simp: process_archives_def)
qed

lemma extract_archives_fail:
  "extract_archives (take i ps) m w = (Inr u, mi, wi) \<Longrightarrow> i < length ps \<Longrightarrow>
   extract_archive mi (ps ! i) wi = (Inl e, w1) \<Longrightarrow>
   extract_archives ps m w = (Inl e, mi, w1)"
proof (induction ps arbitrary: i m w)
  case Nil
  then show ?case by simp
next
  case (Cons q qs)
  show ?case
  proof (cases i)
    case 0
    then have "mi = m" "wi = w" using Cons.prems(1) by simp_all
    then show ?thesis using Cons.prems(3) 0 by simp
  next
    case (Suc j)
    obtain r1 w1' where e1: "extract_archive m q w = (r1, w1')"
      by (cases "extract_archive m q w")
    have run: "extract_archives (q # take j qs) m w = (Inr u, mi, wi)"
      using Cons.prems(1) Suc by simp
    obtain ex where r1: "r1 = Inr ex" using run e1 by (cases r1) simp_all
    obtain err files where rf:
      "record_files (temp_dir m) w1' ex (extracted_files m) = (err, files)"
      by (cases "record_files (temp_dir m) w1' ex (extracted_files m)")
    have en: "err = None" using run e1 r1 rf by (cases err) simp_all
    define m1 where
      "m1 = m\<lparr>extracted_files := files, processed_files := processed_files m + length ex\<rparr>"
    have "extract_archives (take j qs) m1 w1' = (Inr u, mi, wi)"
      using run e1 r1 rf en by (simp add: m1_def)
    moreover have "j < length qs" using Cons.prems(2) Suc by simp
    moreover have "extract_archive mi (qs ! j) wi = (Inl e, w1)" using Cons.prems(3) Suc by simp
    ultimately have "extract_archives qs m1 w1' = (Inl e, mi, w1)" by (rule Cons.IH)
    then show ?thesis using e1 r1 rf en by (simp add: m1_def)
  qed
qed

lemma process_archives_extraction_fails:
  assumes "count_total w ps 0 = Inr n" "i < length ps"
    and "extract_archives (take i ps)
           (m\<lparr>extracted_files := [], total_files := n, processed_files := 0\<rparr>) w
         = (Inr u, mi, wi)"
    and "extract_archive mi (ps ! i) wi = (Inl e, w1)"
  shows "process_archives m ps t c w = (Inl e, mi, w1)"
  using extract_archives_fail[OF assms(3,2,4)] assms(1) by (simp add: process_archives_def)

lemma process_archives_write_fails:
  assumes "count_total w ps 0 = Inr n"
    and "extract_archives ps
           (m\<lparr>extracted_files := [], total_files := n, processed_files := 0\<rparr>) w
         = (Inr u, m2, w2)"
    and "create_output_archive m2 t c w2 = (Inl e, w3)"
  shows "process_archives m ps t c w = (Inl e, m2, w3)"
  using assms by (simp add: process_archives_def)

lemma process_archives_no_output:
  assumes "count_total w ps 0 = Inr n"
    and "extract_archives ps
           (m\<lparr>extracted_files := [], total_files := n, processed_files := 0\<rparr>) w
         = (Inr u, m2, w2)"
    and "create_output_archive m2 t c w2 = (Inr u', w3)"
    and "lookup w3 (output_path m2) = None"
  shows "process_archives m ps t c w = (Inl (OSError (resolve w3 (output_path m2))), m2, w3)"
  using assms by (simp add: process_archives_def)

lemma open_wb_fails_any: "fst (open_wb p d w) = Inl e \<Longrightarrow> open_wb p d' w = (Inl e, w)"
  by (auto simp: open_wb_def Let_def split: if_splits)

lemma create_output_archive_unwritable:
  assumes "t = ''zip'' \<or> t = ''tar'' \<or> t = ''tar.gz'' \<or> t = ''tar.bz2''"
    and "fst (open_wb (output_path m) (Bytes []) w) = Inl e"
  shows "create_output_archive m t c w = (Inl e, w)"
  using assms(1) open_wb_fails_any[OF assms(2)]
  by (auto simp: create_output_archive_def zip_output_def tar_output_def)

text \<open>
  C9. \<^verbatim>\<open>process_archives\<close> has no failure-valued result: a result it returns has
  \<open>success = True\<close>, and every error ends the call in an exception.

  \<^item> An extension that is none of the seven makes the extraction step raise the \<^verbatim>\<open>ValueError\<close>
    for that extension, the file system as it was, and a list of archives with such an
    archive in it never yields a result.

  \<^item> An input that cannot be read makes the call raise the error of the library for one of
    the inputs, in the counting pass, before anything is extracted.

  \<^item> When the extraction of an archive raises, after the archives before it were extracted,
    the call raises that error.

  \<^item> When writing the output raises, the call raises that error; an output that cannot be
    opened for writing makes the writing raise; and when no output file is there after the
    writing, the call raises the \<^verbatim>\<open>OSError\<close> of \<^verbatim>\<open>stat\<close>.
\<close>

theorem failures_are_exceptions:
  "(process_archives m ps t c w = (Inr r, m', w') \<longrightarrow> success r)
   \<and> (lower (suffix p) \<notin> set known_suffixes \<longrightarrow>
        extract_archive m p w = (Inl (UnsupportedFormat (lower (suffix p))), w))
   \<and> (p \<in> set ps \<and> lower (suffix p) \<notin> set known_suffixes \<longrightarrow>
        (\<exists>e. fst (process_archives m ps t c w) = Inl e))
   \<and> (p \<in> set ps \<and> unreadable w p \<longrightarrow>
        (\<exists>q\<in>set ps. process_archives m ps t c w
                       = (Inl (BadArchive q), m\<lparr>extracted_files := []\<rparr>, w)))
   \<and> (count_total w ps 0 = Inr n \<and> i < length ps
        \<and> extract_archives (take i ps)
              (m\<lparr>extracted_files := [], total_files := n, processed_files := 0\<rparr>) w
            = (Inr (), mi, wi)
        \<and> extract_archive mi (ps ! i) wi = (Inl e, w1) \<longrightarrow>
        process_archives m ps t c w = (Inl e, mi, w1))
   \<and> (count_total w ps 0 = Inr n
        \<and> extract_archives ps
              (m\<lparr>extracted_files := [], total_files := n, processed_files := 0\<rparr>) w
            = (Inr (), m2, w2)
        \<and> create_output_archive m2 t c w2 = (Inl e, w3) \<longrightarrow>
        process_archives m ps t c w = (Inl e, m2, w3))
   \<and> ((t = ''zip'' \<or> t = ''tar'' \<or> t = ''tar.gz'' \<or> t = ''tar.bz2'')
        \<and> fst (open_wb (output_path m2) (Bytes []) w2) = Inl e \<longrightarrow>
        create_output_archive m2 t c w2 = (Inl e, w2))
   \<and> (count_total w ps 0 = Inr n
        \<and> extract_archives ps
              (m\<lparr>extracted_files := [], total_files := n, processed_files := 0\<rparr>) w
            = (Inr (), m2, w2)
        \<and> create_output_archive m2 t c w2 = (Inr (), w3)
        \<and> lookup w3 (output_path m2) = None \<longrightarrow>
        process_archives m ps t c w = (Inl (OSError (resolve w3 (output_path m2))), m2, w3))"
proof -
  have a: "process_archives m ps t c w = (Inr r, m', w') \<longrightarrow> success r"
    using process_archives_success[of m ps t c w r m' w'] by blast
  have b: "lower (suffix p) \<notin> set known_suffixes \<longrightarrow>
        extract_archive m p w = (Inl (UnsupportedFormat (lower (suffix p))), w)"
    using extract_archive_unknown[of p m w] by blast
  have c: "p \<in> set ps \<and> lower (suffix p) \<notin> set known_suffixes \<longrightarrow>
        (\<exists>e. fst (process_archives m ps t c w) = Inl e)"
    using process_archives_unknown[of p ps m t c w] by blast
  have d: "p \<in> set ps \<and> unreadable w p \<longrightarrow>
        (\<exists>q\<in>set ps. process_archives m ps t c w
                       = (Inl (BadArchive q), m\<lparr>extracted_files := []\<rparr>, w))"
    using process_archives_unreadable[of p ps w m t c] by blast
  have e: "count_total w ps 0 = Inr n \<and> i < length ps
        \<and> extract_archives (take i ps)
              (m\<lparr>extracted_files := [], total_files := n, processed_files := 0\<rparr>) w
            = (Inr (), mi, wi)
        \<and> extract_archive mi (ps ! i) wi = (Inl e, w1) \<longrightarrow>
        process_archives m ps t c w = (Inl e, mi, w1)"
    using process_archives_extraction_fails[of w ps n i m "()" mi wi e w1 t c] by blast
  have f: "count_total w ps 0 = Inr n
        \<and> extract_archives ps
              (m\<lparr>extracted_files := [], total_files := n, processed_files := 0\<rparr>) w
            = (Inr (), m2, w2)
        \<and> create_output_archive m2 t c w2 = (Inl e, w3) \<longrightarrow>
        process_archives m ps t c w = (Inl e, m2, w3)"
    using process_archives_write_fails[of w ps n m "()" m2 w2 t c e w3] by blast
  have g: "(t = ''zip'' \<or> t = ''tar'' \<or> t = ''tar.gz'' \<or> t = ''tar.bz2'')
        \<and> fst (open_wb (output_path m2) (Bytes []) w2) = Inl e \<longrightarrow>
        create_output_archive m2 t c w2 = (Inl e, w2)"
    using create_output_archive_unwritable[of t m2 w2 e c] by blast
  have h: "count_total w ps 0 = Inr n
        \<and> extract_archives ps
              (m\<lparr>extracted_files := [], total_files := n, processed_files := 0\<rparr>) w
            = (Inr (), m2, w2)
        \<and> create_output_archive m2 t c w2 = (Inr (), w3)
        \<and> lookup w3 (output_path m2) = None \<longrightarrow>
        process_archives m ps t c w = (Inl (OSError (resolve w3 (output_path m2))), m2, w3)"
    using process_archives_no_output[of w ps n m "()" m2 w2 t c "()" w3] by blast
  show ?thesis
    by (rule conjI[OF a conjI[OF b conjI[OF c conjI[OF d conjI[OF e conjI[OF f conjI[OF g h]]]]]]])
qed

theorem failures_are_exceptions_witness:
  "fst (process_archives ex_merger [Path [] [''a.zip'']] ''zip'' ''deflate'' ex_entered)
     = Inr \<lparr>success = True, output_file = ex_out, total_input_files = 1,
            total_extracted_files = 1\<rparr>
   \<and> success \<lparr>success = True, output_file = ex_out, total_input_files = 1,
              total_extracted_files = 1\<rparr>
   \<and> lower (suffix (Path [] [''notes.7z''])) \<notin> set known_suffixes
   \<and> extract_archive ex_merger (Path [] [''notes.7z'']) ex_entered
       = (Inl (UnsupportedFormat ''.7z''), ex_entered)
   \<and> (\<exists>e. fst (process_archives ex_merger [Path [] [''a.zip''], Path [] [''notes.7z'']]
                  ''zip'' ''deflate'' ex_entered) = Inl e)
   \<and> unreadable ex_entered (Path [] [''missing.zip''])
   \<and> (\<exists>q\<in>set [Path [] [''a.zip''], Path [] [''missing.zip'']].
         process_archives ex_merger [Path [] [''a.zip''], Path [] [''missing.zip'']] ''zip''
           ''deflate'' ex_entered
         = (Inl (BadArchive q), ex_merger\<lparr>extracted_files := []\<rparr>, ex_entered))
   \<and> count_total ex_clash [Path [] [''a.zip''], Path [] [''e.zip'']] 0 = Inr 2
   \<and> fst (process_archives ex_merger [Path [] [''a.zip''], Path [] [''e.zip'']] ''zip''
            ''deflate'' ex_clash)
       = Inl (OSError [''tmp'', ''archivemaster_k3'', ''x.txt''])
   \<and> fst (open_wb (output_path ex_merger_etc) (Bytes []) ex_entered) = Inl (OSError [''etc''])
   \<and> create_output_archive ex_merger_etc ''zip'' ''deflate'' ex_entered
       = (Inl (OSError [''etc'']), ex_entered)
   \<and> fst (process_archives ex_merger_etc [Path [] [''a.zip'']] ''zip'' ''deflate'' ex_entered)
       = Inl (OSError [''etc''])
   \<and> fst (process_archives ex_merger [Path [] [''a.zip'']] ''7z'' ''deflate'' ex_entered)
       = Inl (OSError [''home'', ''out.zip''])"
proof -
  let ?a = "Path [] [''a.zip'']"
  let ?r = "\<lparr>success = True, output_file = ex_out, total_input_files = 1,
              total_extracted_files = 1\<rparr>"
  let ?run = "process_archives ex_merger [?a] ''zip'' ''deflate'' ex_entered"
  have f: "fst ?run = Inr ?r" by code_simp
  then have run: "?run = (Inr ?r, fst (snd ?run), snd (snd ?run))"
    by (simp add: prod_eq_iff)
  have c1: "success ?r"
    by (rule failures_are_exceptions[where m = ex_merger and ps = "[?a]" and t = "''zip''"
          and c = "''deflate''" and w = ex_entered and r = ?r and m' = "fst (snd ?run)"
          and w' = "snd (snd ?run)", THEN conjunct1, THEN mp]) (fact run)

  let ?n = "Path [] [''notes.7z'']"
  have u: "lower (suffix ?n) \<notin> set known_suffixes" by code_simp
  have s: "lower (suffix ?n) = ''.7z''" by code_simp
  have "extract_archive ex_merger ?n ex_entered
          = (Inl (UnsupportedFormat (lower (suffix ?n))), ex_entered)"
    by (rule failures_are_exceptions[where p = ?n and m = ex_merger and w = ex_entered,
          THEN conjunct2, THEN conjunct1, THEN mp]) (fact u)
  then have c2: "extract_archive ex_merger ?n ex_entered
                   = (Inl (UnsupportedFormat ''.7z''), ex_entered)"
    by (simp only: s)
  have in1: "?n \<in> set [?a, ?n]" by simp
  have c3: "\<exists>e. fst (process_archives ex_merger [?a, ?n] ''zip'' ''deflate'' ex_entered) = Inl e"
    by (rule failures_are_exceptions[where p = ?n and ps = "[?a, ?n]" and m = ex_merger
          and t = "''zip''" and c = "''deflate''" and w = ex_entered,
          THEN conjunct2, THEN conjunct2, THEN conjunct1, THEN mp]) (intro conjI; fact)

  let ?mz = "Path [] [''missing.zip'']"
  have un: "unreadable ex_entered ?mz" by code_simp
  have in2: "?mz \<in> set [?a, ?mz]" by simp
  have c4: "\<exists>q\<in>set [?a, ?mz].
         process_archives ex_merger [?a, ?mz] ''zip'' ''deflate'' ex_entered
         = (Inl (BadArchive q), ex_merger\<lparr>extracted_files := []\<rparr>, ex_entered)"
    by (rule failures_are_exceptions[where p = ?mz and ps = "[?a, ?mz]" and m = ex_merger
          and t = "''zip''" and c = "''deflate''" and w = ex_entered,
          THEN conjunct2, THEN conjunct2, THEN conjunct2, THEN conjunct1, THEN mp])
      (intro conjI; fact)

  let ?e = "Path [] [''e.zip'']"
  let ?m0 = "ex_merger\<lparr>extracted_files := [], total_files := 2, processed_files := 0\<rparr>"
  let ?pre = "extract_archives (take 1 [?a, ?e]) ?m0 ex_clash"
  let ?step = "extract_archive (fst (snd ?pre)) ([?a, ?e] ! 1) (snd (snd ?pre))"
  let ?err = "OSError [''tmp'', ''archivemaster_k3'', ''x.txt'']"
  have ct: "count_total ex_clash [?a, ?e] 0 = Inr 2" by code_simp
  have "fst ?pre = Inr ()" by code_simp
  then have pre: "?pre = (Inr (), fst (snd ?pre), snd (snd ?pre))" by (simp add: prod_eq_iff)
  have "fst ?step = Inl ?err" by code_simp
  then have step: "?step = (Inl ?err, snd ?step)" by (simp add: prod_eq_iff)
  have i1: "(1::nat) < length [?a, ?e]" by simp
  have "process_archives ex_merger [?a, ?e] ''zip'' ''deflate'' ex_clash
          = (Inl ?err, fst (snd ?pre), snd ?step)"
    by (rule failures_are_exceptions[where m = ex_merger and ps = "[?a, ?e]" and t = "''zip''"
          and c = "''deflate''" and w = ex_clash and n = 2 and i = 1 and mi = "fst (snd ?pre)"
          and wi = "snd (snd ?pre)" and e = ?err and ?w1.0 = "snd ?step",
          THEN conjunct2, THEN conjunct2, THEN conjunct2, THEN conjunct2, THEN conjunct1,
          THEN mp])
      (intro conjI; fact)
  then have c5: "fst (process_archives ex_merger [?a, ?e] ''zip'' ''deflate'' ex_clash) = Inl ?err"
    by (simp only: fst_conv)

  let ?m1 = "ex_merger_etc\<lparr>extracted_files := [], total_files := 1, processed_files := 0\<rparr>"
  let ?ext = "extract_archives [?a] ?m1 ex_entered"
  let ?wr = "create_output_archive (fst (snd ?ext)) ''zip'' ''deflate'' (snd (snd ?ext))"
  let ?etc = "OSError [''etc'']"
  have ct1: "count_total ex_entered [?a] 0 = Inr 1" by code_simp
  have "fst ?ext = Inr ()" by code_simp
  then have ext: "?ext = (Inr (), fst (snd ?ext), snd (snd ?ext))" by (simp add: prod_eq_iff)
  have "fst ?wr = Inl ?etc" by code_simp
  then have wr: "?wr = (Inl ?etc, snd ?wr)" by (simp add: prod_eq_iff)
  have "process_archives ex_merger_etc [?a] ''zip'' ''deflate'' ex_entered
          = (Inl ?etc, fst (snd ?ext), snd ?wr)"
    by (rule failures_are_exceptions[where m = ex_merger_etc and ps = "[?a]" and t = "''zip''"
          and c = "''deflate''" and w = ex_entered and n = 1 and ?m2.0 = "fst (snd ?ext)"
          and ?w2.0 = "snd (snd ?ext)" and e = ?etc and ?w3.0 = "snd ?wr",
          THEN conjunct2, THEN conjunct2, THEN conjunct2, THEN conjunct2, THEN conjunct2,
          THEN conjunct1, THEN mp])
      (intro conjI; fact)
  then have c6: "fst (process_archives ex_merger_etc [?a] ''zip'' ''deflate'' ex_entered) = Inl ?etc"
    by (simp only: fst_conv)

  have ow: "fst (open_wb (output_path ex_merger_etc) (Bytes []) ex_entered) = Inl ?etc"
    by code_simp
  have zz: "''zip'' = ''zip'' \<or> ''zip'' = ''tar'' \<or> ''zip'' = ''tar.gz'' \<or> ''zip'' = ''tar.bz2''"
    by simp
  have c7: "create_output_archive ex_merger_etc ''zip'' ''deflate'' ex_entered
       = (Inl ?etc, ex_entered)"
    by (rule failures_are_exceptions[where t = "''zip''" and ?m2.0 = ex_merger_etc
          and ?w2.0 = ex_entered and e = ?etc and c = "''deflate''",
          THEN conjunct2, THEN conjunct2, THEN conjunct2, THEN conjunct2, THEN conjunct2,
          THEN conjunct2, THEN conjunct1, THEN mp])
      (intro conjI; fact)

  let ?m1' = "ex_merger\<lparr>extracted_files := [], total_files := 1, processed_files := 0\<rparr>"
  let ?ext' = "extract_archives [?a] ?m1' ex_entered"
  let ?wr' = "create_output_archive (fst (snd ?ext')) ''7z'' ''deflate'' (snd (snd ?ext'))"
  have "fst ?ext' = Inr ()" by code_simp
  then have ext': "?ext' = (Inr (), fst (snd ?ext'), snd (snd ?ext'))" by (simp add: prod_eq_iff)
  have "fst ?wr' = Inr ()" by code_simp
  then have wr': "?wr' = (Inr (), snd ?wr')" by (simp add: prod_eq_iff)
  have lk: "lookup (snd ?wr') (output_path (fst (snd ?ext'))) = None" by code_simp
  have rs: "resolve (snd ?wr') (output_path (fst (snd ?ext'))) = [''home'', ''out.zip'']"
    by code_simp
  have "process_archives ex_merger [?a] ''7z'' ''deflate'' ex_entered
          = (Inl (OSError (resolve (snd ?wr') (output_path (fst (snd ?ext'))))),
             fst (snd ?ext'), snd ?wr')"
    by (rule failures_are_exceptions[where m = ex_merger and ps = "[?a]" and t = "''7z''"
          and c = "''deflate''" and w = ex_entered and n = 1 and ?m2.0 = "fst (snd ?ext')"
          and ?w2.0 = "snd (snd ?ext')" and ?w3.0 = "snd ?wr'",
          THEN conjunct2, THEN conjunct2, THEN conjunct2, THEN conjunct2, THEN conjunct2,
          THEN conjunct2, THEN conjunct2, THEN mp])
      (intro conjI; fact)
  then have c8: "fst (process_archives ex_merger [?a] ''7z'' ''deflate'' ex_entered)
       = Inl (OSError [''home'', ''out.zip''])"
    by (simp only: fst_conv rs)

  show ?thesis
    by (rule conjI[OF f conjI[OF c1 conjI[OF u conjI[OF c2 conjI[OF c3 conjI[OF un conjI[OF c4
          conjI[OF ct conjI[OF c5 conjI[OF ow conjI[OF c7 conjI[OF c6 c8]]]]]]]]]]]])
qed


subsection \<open>What the write step leaves at the output path\<close>

lemma zip_output_Inr:
  assumes "zip_output m c w = (Inr u, w')"
  obtains w1 zf where
    "open_wb (output_path m) (ZipData c []) w = (Inr (), w1)"
    "zip_write_all w1 (temp_dir m) (sort_key cparts (extracted_files m)) [] = (None, zf)"
    "w' = put (resolve w (output_path m)) (File (ZipData c zf)) w1"
proof -
  obtain r1 w1 where o: "open_wb (output_path m) (ZipData c []) w = (r1, w1)"
    by (cases "open_wb (output_path m) (ZipData c []) w")
  have cw: "cwd w1 = cwd w" using cwd_open_wb[of "output_path m" "ZipData c []" w] o by simp
  obtain err zf where z:
    "zip_write_all w1 (temp_dir m) (sort_key cparts (extracted_files m)) [] = (err, zf)"
    by (cases "zip_write_all w1 (temp_dir m) (sort_key cparts (extracted_files m)) []")
  have r1: "r1 = Inr ()" using assms o by (cases r1) (simp_all add: zip_output_def)
  have err: "err = None" using assms o z r1 by (cases err) (simp_all add: zip_output_def)
  have "w' = put (resolve w1 (output_path m)) (File (ZipData c zf)) w1"
    using assms o z r1 err by (simp add: zip_output_def)
  then have "w' = put (resolve w (output_path m)) (File (ZipData c zf)) w1"
    using resolve_cwd[OF cw, of "output_path m"] by simp
  then show ?thesis using that o z r1 err by simp
qed

lemma tar_output_Inr:
  assumes "tar_output m c w = (Inr u, w')"
  obtains w1 tf where
    "open_wb (output_path m) (TarData c []) w = (Inr (), w1)"
    "tar_add_all w1 (output_path m) (temp_dir m) (sort_key cparts (extracted_files m)) []
       = (None, tf)"
    "w' = put (resolve w (output_path m)) (File (TarData c tf)) w1"
proof -
  obtain r1 w1 where o: "open_wb (output_path m) (TarData c []) w = (r1, w1)"
    by (cases "open_wb (output_path m) (TarData c []) w")
  have cw: "cwd w1 = cwd w" using cwd_open_wb[of "output_path m" "TarData c []" w] o by simp
  obtain err tf where z:
    "tar_add_all w1 (output_path m) (temp_dir m) (sort_key cparts (extracted_files m)) []
       = (err, tf)"
    by (cases "tar_add_all w1 (output_path m) (temp_dir m) (sort_key cparts (extracted_files m)) []")
  have r1: "r1 = Inr ()" using assms o by (cases r1) (simp_all add: tar_output_def)
  have err: "err = None" using assms o z r1 by (cases err) (simp_all add: tar_output_def)
  have "w' = put (resolve w1 (output_path m)) (File (TarData c tf)) w1"
    using assms o z r1 err by (simp add: tar_output_def)
  then have "w' = put (resolve w (output_path m)) (File (TarData c tf)) w1"
    using resolve_cwd[OF cw, of "output_path m"] by simp
  then show ?thesis using that o z r1 err by simp
qed

lemma zip_output_node:
  assumes "zip_output m c w = (Inr u, w')"
  shows "\<exists>zf. nodes w' (resolve w (output_path m)) = Some (File (ZipData c zf))"
  using zip_output_Inr[OF assms] by (metis nodes_put fun_upd_same)

lemma tar_output_node:
  assumes "tar_output m c w = (Inr u, w')"
  shows "\<exists>tf. nodes w' (resolve w (output_path m)) = Some (File (TarData c tf))"
  using tar_output_Inr[OF assms] by (metis nodes_put fun_upd_same)

text \<open>
  Against C6 as it is stated: with the output type \<open>tar\<close> and the compression argument
  \<open>gzip\<close>, the container written is gzip-compressed.
\<close>

theorem tar_output_follows_argument:
  "fst (create_output_archive ex_merger ''tar'' ''gzip'' ex_entered) = Inr ()
   \<and> nodes (snd (create_output_archive ex_merger ''tar'' ''gzip'' ex_entered)) [''home'', ''out.zip'']
       = Some (File (TarData TarGz []))"
  by code_simp

text \<open>
  C6, amended. When the write step succeeds, the container at the output path is: for
  \<open>zip\<close>, a ZIP container deflated at the merger's level, whatever number that is; for
  \<open>tar\<close>, a TAR container that is gzip-compressed when the compression argument is \<open>gzip\<close>
  and plain for every other argument; for \<open>tar.gz\<close> and \<open>tar.bz2\<close>, a TAR container
  compressed as the type says, whatever the argument.
\<close>

theorem output_compression:
  assumes "create_output_archive m t c w = (Inr u, w')"
  shows "(t = ''zip'' \<longrightarrow>
           (\<exists>es. nodes w' (resolve w (output_path m))
                   = Some (File (ZipData (ZIP_DEFLATED (compression_level m)) es))))
       \<and> (t = ''tar'' \<longrightarrow>
           (\<exists>ms. nodes w' (resolve w (output_path m))
                   = Some (File (TarData (if c = ''gzip'' then TarGz else TarPlain) ms))))
       \<and> (t = ''tar.gz'' \<longrightarrow>
           (\<exists>ms. nodes w' (resolve w (output_path m)) = Some (File (TarData TarGz ms))))
       \<and> (t = ''tar.bz2'' \<longrightarrow>
           (\<exists>ms. nodes w' (resolve w (output_path m)) = Some (File (TarData TarBz2 ms))))"
proof (intro conjI impI)
  assume "t = ''zip''"
  then have "zip_output m (ZIP_DEFLATED (compression_level m)) w = (Inr u, w')"
    using assms by (simp add: create_output_archive_def)
  then show "\<exists>es. nodes w' (resolve w (output_path m))
                   = Some (File (ZipData (ZIP_DEFLATED (compression_level m)) es))"
    by (rule zip_output_node)
next
  assume "t = ''tar''"
  then have "tar_output m (if c = ''gzip'' then TarGz else TarPlain) w = (Inr u, w')"
    using assms by (simp add: create_output_archive_def)
  then show "\<exists>ms. nodes w' (resolve w (output_path m))
                   = Some (File (TarData (if c = ''gzip'' then TarGz else TarPlain) ms))"
    by (rule tar_output_node)
next
  assume "t = ''tar.gz''"
  then have "tar_output m TarGz w = (Inr u, w')"
    using assms by (simp add: create_output_archive_def)
  then show "\<exists>ms. nodes w' (resolve w (output_path m)) = Some (File (TarData TarGz ms))"
    by (rule tar_output_node)
next
  assume "t = ''tar.bz2''"
  then have "tar_output m TarBz2 w = (Inr u, w')"
    using assms by (simp add: create_output_archive_def)
  then show "\<exists>ms. nodes w' (resolve w (output_path m)) = Some (File (TarData TarBz2 ms))"
    by (rule tar_output_node)
qed

theorem output_compression_witness:
  "fst (create_output_archive ex_merger ''tar'' ''bzip2'' ex_entered) = Inr ()
   \<and> (\<exists>ms. nodes (snd (create_output_archive ex_merger ''tar'' ''bzip2'' ex_entered))
              (resolve ex_entered (output_path ex_merger))
            = Some (File (TarData TarPlain ms)))"
proof -
  let ?run = "create_output_archive ex_merger ''tar'' ''bzip2'' ex_entered"
  have f: "fst ?run = Inr ()" by code_simp
  then have run: "?run = (Inr (), snd ?run)" by (simp add: prod_eq_iff)
  show ?thesis using f output_compression[OF run] by simp
qed


subsection \<open>The steps of a successful merge\<close>



subsection \<open>One member written for each record\<close>







subsection \<open>Extraction only adds to the file system\<close>

lemma grows_refl: "grows w w"
  by (simp add: grows_def)

lemma grows_trans: "grows w1 w2 \<Longrightarrow> grows w2 w3 \<Longrightarrow> grows w1 w3"
  unfolding grows_def by (metis)

lemma grows_put_dir:
  assumes "nodes w k = None \<or> nodes w k = Some Dir"
  shows "grows w (put k Dir w)"
  using assms by (auto simp: grows_def)


lemma grows_ensure_dirs:
  "ensure_dirs ks w = (Inr u, w') \<Longrightarrow> grows w w'"
proof (induction ks arbitrary: w)
  case Nil
  then show ?case by (simp add: grows_refl)
next
  case (Cons k ks)
  show ?case
  proof (cases "nodes w k")
    case None
    then have "ensure_dirs ks (put k Dir w) = (Inr u, w')" using Cons.prems by simp
    then have "grows (put k Dir w) w'" by (rule Cons.IH)
    then show ?thesis using grows_put_dir[of w k] None grows_trans by blast
  next
    case (Some nd)
    show ?thesis
    proof (cases nd)
      case Dir
      then have "ensure_dirs ks (put k Dir w) = (Inr u, w')" using Cons.prems Some by simp
      then have "grows (put k Dir w) w'" by (rule Cons.IH)
      then show ?thesis using grows_put_dir[of w k] Some Dir grows_trans by blast
    next
      case (File d)
      then show ?thesis using Cons.prems Some by simp
    qed
  qed
qed

lemma all_dirs_ensure_dirs:
  "ensure_dirs ks w = (Inr u, w') \<Longrightarrow> list_all (is_dir w') ks"
proof (induction ks arbitrary: w)
  case Nil
  then show ?case by simp
next
  case (Cons k ks)
  have nf: "nodes w k = None \<or> nodes w k = Some Dir"
    using Cons.prems by (cases "nodes w k") (auto split: node.splits)
  then have rest: "ensure_dirs ks (put k Dir w) = (Inr u, w')"
    using Cons.prems by auto
  then have a: "list_all (is_dir w') ks" by (rule Cons.IH)
  have "grows (put k Dir w) w'" using rest by (rule grows_ensure_dirs)
  then have "is_dir w' k" by (simp add: grows_def is_dir_def)
  then show ?case using a by simp
qed










subsection \<open>What an extraction returns and leaves\<close>







subsection \<open>The records of the extraction pass\<close>






subsection \<open>Release of the temporary directory\<close>

lemma foldl_walk_plain: "''..'' \<notin> set cs \<Longrightarrow> foldl walk_step s cs = s @ cs"
  by (induction cs arbitrary: s) auto

lemma trail_plain:
  "''..'' \<notin> set cs \<Longrightarrow> t \<in> set (trail s cs) \<Longrightarrow> \<exists>i<length cs. t = s @ take i cs"
proof (induction cs arbitrary: s)
  case Nil
  then show ?case by simp
next
  case (Cons c cs)
  show ?case
  proof (cases "t = s")
    case True
    then show ?thesis by (intro exI[of _ 0]) simp
  next
    case False
    moreover have "c \<noteq> ''..''" using Cons.prems(1) by auto
    ultimately have "t \<in> set (trail (s @ [c]) cs)" using Cons.prems(2) by simp
    moreover have "''..'' \<notin> set cs" using Cons.prems by simp
    ultimately obtain i where "i < length cs" "t = (s @ [c]) @ take i cs"
      using Cons.IH by blast
    then show ?thesis by (intro exI[of _ "Suc i"]) simp
  qed
qed

lemma trail_above:
  assumes "''..'' \<notin> set (parts p)" "t \<in> set (trail (start_dir w p) (parts p))"
  shows "length t < length (resolve w p)"
proof -
  obtain i where "i < length (parts p)" "t = start_dir w p @ take i (parts p)"
    using trail_plain[OF assms] by blast
  then show ?thesis using assms(1) by (simp add: resolve_def foldl_walk_plain)
qed

lemma cwd_rmtree: "cwd (snd (rmtree rm k w)) = cwd w"
  by (cases rm) (simp_all add: rmtree_def)

lemma nodes_rmtree_above:
  "length t < length k \<Longrightarrow> nodes (snd (rmtree rm k w)) t = nodes w t"
  by (cases rm) (auto simp: rmtree_def)

lemma nodes_rmtree_refused:
  "list_ex (\<lambda>r. take (length k) r = k \<and> nodes w r \<noteq> None) rs \<Longrightarrow>
   nodes (snd (rmtree (Refuses rs) k w)) k = nodes w k"
  by (simp add: rmtree_def)

lemma nodes_rmtree_clean:
  "\<not> list_ex (\<lambda>r. take (length k) r = k \<and> nodes w r \<noteq> None) rs \<Longrightarrow>
   nodes (snd (rmtree (Refuses rs) k w)) k = None"
  by (simp add: rmtree_def)

lemma nodes_rmtree_overflow: "nodes (snd (rmtree (Overflows gone) k w)) k = nodes w k"
  by (simp add: rmtree_def)

lemma path_exists_kept:
  assumes "path_exists w p" "''..'' \<notin> set (parts p)" "cwd w' = cwd w"
    and "\<And>t. length t < length (resolve w p) \<Longrightarrow> nodes w' t = nodes w t"
    and "nodes w' (resolve w p) = nodes w (resolve w p)"
  shows "path_exists w' p"
proof -
  have tr: "traversable w p" and nd: "nodes w (resolve w p) \<noteq> None"
    using assms(1) by (auto simp: path_exists_def lookup_def split: if_splits)
  have sd: "start_dir w' p = start_dir w p" using assms(3) by (rule start_dir_cwd)
  have rs: "resolve w' p = resolve w p" using assms(3) by (rule resolve_cwd)
  have "is_dir w' t" if "t \<in> set (trail (start_dir w p) (parts p))" for t
  proof -
    have "is_dir w t" using tr that by (simp add: traversable_def list_all_iff)
    moreover have "nodes w' t = nodes w t" using assms(4) trail_above[OF assms(2) that] by simp
    ultimately show ?thesis by (simp add: is_dir_def)
  qed
  then have "traversable w' p" by (simp add: traversable_def list_all_iff sd)
  then show ?thesis using nd assms(5) rs by (simp add: path_exists_def lookup_def)
qed

lemma not_exists_at: "cwd w' = cwd w \<Longrightarrow> nodes w' (resolve w p) = None \<Longrightarrow> \<not> path_exists w' p"
  using resolve_cwd[of w' w p] by (simp add: path_exists_def lookup_def)

lemma merge_body_fields:
  "temp_dir (fst (snd (merge_body out level fresh ps t c w))) = Some fresh
   \<and> cwd (snd (snd (merge_body out level fresh ps t c w))) = cwd w"
  using process_archives_fields[of "(ArchiveMerger out level)\<lparr>temp_dir := Some fresh\<rparr>" ps t c
      "put (resolve w fresh) Dir w"]
  by (simp add: merge_body_def enter_def)

lemma with_ArchiveMerger_exit:
  assumes "merge_body out level fresh ps t c w = (r, m2, w2)"
  shows "temp_dir m2 = Some fresh" "cwd w2 = cwd w"
    "with_ArchiveMerger rm out level fresh ps t c w
       = (if path_exists w2 fresh
          then (case rmtree rm (resolve w fresh) w2 of
                  (None, w3) \<Rightarrow> (r, w3) | (Some e, w3) \<Rightarrow> (Inl e, w3))
          else (r, w2))"
proof -
  show td: "temp_dir m2 = Some fresh" and cw: "cwd w2 = cwd w"
    using merge_body_fields[of out level fresh ps t c w] assms by simp_all
  have "resolve w2 fresh = resolve w fresh" using cw by (rule resolve_cwd)
  then show "with_ArchiveMerger rm out level fresh ps t c w
       = (if path_exists w2 fresh
          then (case rmtree rm (resolve w fresh) w2 of
                  (None, w3) \<Rightarrow> (r, w3) | (Some e, w3) \<Rightarrow> (Inl e, w3))
          else (r, w2))"
    using assms td by (simp add: with_ArchiveMerger_def exit_merger_def)
qed

lemma released_unless_refused:
  assumes "\<not> list_ex (\<lambda>r. take (length (resolve w fresh)) r = resolve w fresh
                   \<and> nodes (snd (snd (merge_body out level fresh ps t c w))) r \<noteq> None) rs"
  shows "\<not> path_exists (snd (with_ArchiveMerger (Refuses rs) out level fresh ps t c w)) fresh"
proof -
  obtain r m2 w2 where mb: "merge_body out level fresh ps t c w = (r, m2, w2)"
    by (metis prod_cases3)
  note ex = with_ArchiveMerger_exit[OF mb]
  show ?thesis
  proof (cases "path_exists w2 fresh")
    case False
    then show ?thesis using ex(3)[of "Refuses rs"] by simp
  next
    case True
    let ?w3 = "snd (rmtree (Refuses rs) (resolve w fresh) w2)"
    have w: "with_ArchiveMerger (Refuses rs) out level fresh ps t c w = (r, ?w3)"
      using ex(3)[of "Refuses rs"] True by (simp add: rmtree_def)
    have "nodes ?w3 (resolve w fresh) = None"
      using assms mb by (intro nodes_rmtree_clean) simp
    moreover have "cwd ?w3 = cwd w" using cwd_rmtree[of "Refuses rs"] ex(2) by simp
    ultimately have "\<not> path_exists ?w3 fresh" by (intro not_exists_at)
    then show ?thesis using w by simp
  qed
qed

lemma refusal_swallowed:
  "fst (with_ArchiveMerger (Refuses rs) out level fresh ps t c w)
     = fst (merge_body out level fresh ps t c w)"
proof -
  obtain r m2 w2 where mb: "merge_body out level fresh ps t c w = (r, m2, w2)"
    by (metis prod_cases3)
  show ?thesis
    using with_ArchiveMerger_exit(3)[OF mb, of "Refuses rs"] mb by (simp add: rmtree_def)
qed

lemma kept_when_refused:
  assumes "path_exists (snd (snd (merge_body out level fresh ps t c w))) fresh"
    and "''..'' \<notin> set (parts fresh)"
    and "list_ex (\<lambda>r. take (length (resolve w fresh)) r = resolve w fresh
                   \<and> nodes (snd (snd (merge_body out level fresh ps t c w))) r \<noteq> None) rs"
  shows "path_exists (snd (with_ArchiveMerger (Refuses rs) out level fresh ps t c w)) fresh"
proof -
  obtain r m2 w2 where mb: "merge_body out level fresh ps t c w = (r, m2, w2)"
    by (metis prod_cases3)
  note ex = with_ArchiveMerger_exit[OF mb]
  let ?w3 = "snd (rmtree (Refuses rs) (resolve w fresh) w2)"
  have pe: "path_exists w2 fresh" using assms(1) mb by simp
  have rs2: "resolve w2 fresh = resolve w fresh" using ex(2) by (rule resolve_cwd)
  have w: "with_ArchiveMerger (Refuses rs) out level fresh ps t c w = (r, ?w3)"
    using ex(3)[of "Refuses rs"] pe by (simp add: rmtree_def)
  have "path_exists ?w3 fresh"
  proof (rule path_exists_kept[OF pe assms(2)])
    show "cwd ?w3 = cwd w2" by (rule cwd_rmtree)
    show "nodes ?w3 t = nodes w2 t" if "length t < length (resolve w2 fresh)" for t
      using that rs2 by (simp add: nodes_rmtree_above)
    show "nodes ?w3 (resolve w2 fresh) = nodes w2 (resolve w2 fresh)"
      unfolding rs2 using assms(3) mb by (intro nodes_rmtree_refused) simp
  qed
  then show ?thesis using w by simp
qed

lemma kept_when_overflow:
  assumes "path_exists (snd (snd (merge_body out level fresh ps t c w))) fresh"
    and "''..'' \<notin> set (parts fresh)"
  shows "fst (with_ArchiveMerger (Overflows gone) out level fresh ps t c w) = Inl RecursionError
       \<and> path_exists (snd (with_ArchiveMerger (Overflows gone) out level fresh ps t c w)) fresh"
proof -
  obtain r m2 w2 where mb: "merge_body out level fresh ps t c w = (r, m2, w2)"
    by (metis prod_cases3)
  note ex = with_ArchiveMerger_exit[OF mb]
  let ?w3 = "snd (rmtree (Overflows gone) (resolve w fresh) w2)"
  have pe: "path_exists w2 fresh" using assms(1) mb by simp
  have rs2: "resolve w2 fresh = resolve w fresh" using ex(2) by (rule resolve_cwd)
  have w: "with_ArchiveMerger (Overflows gone) out level fresh ps t c w
             = (Inl RecursionError, ?w3)"
    using ex(3)[of "Overflows gone"] pe by (simp add: rmtree_def)
  have "path_exists ?w3 fresh"
  proof (rule path_exists_kept[OF pe assms(2)])
    show "cwd ?w3 = cwd w2" by (rule cwd_rmtree)
    show "nodes ?w3 t = nodes w2 t" if "length t < length (resolve w2 fresh)" for t
      using that rs2 by (simp add: nodes_rmtree_above)
    show "nodes ?w3 (resolve w2 fresh) = nodes w2 (resolve w2 fresh)"
      unfolding rs2 by (rule nodes_rmtree_overflow)
  qed
  then show ?thesis using w by simp
qed

text \<open>
  C8, as it stands, fails where the removal fails. The merge of \<open>a.zip\<close> into a ZIP returns
  its result; the platform refuses to remove the extracted \<open>x.txt\<close>; \<^verbatim>\<open>rmtree\<close> swallows the
  error, and the temporary directory is still there when the block is left.
\<close>

theorem temp_dir_left_behind:
  "fst (with_ArchiveMerger (Refuses [[''tmp'', ''archivemaster_k3'', ''x.txt'']]) ex_out 6 ex_temp
          [Path [] [''a.zip'']] ''zip'' ''deflate'' ex_world)
     = Inr \<lparr>success = True, output_file = ex_out, total_input_files = 1,
            total_extracted_files = 1\<rparr>
   \<and> path_exists
        (snd (with_ArchiveMerger (Refuses [[''tmp'', ''archivemaster_k3'', ''x.txt'']]) ex_out 6
                ex_temp [Path [] [''a.zip'']] ''zip'' ''deflate'' ex_world))
        ex_temp"
  by code_simp

text \<open>
  C8, amended. Whatever the merge does inside the \<^verbatim>\<open>with\<close> block, whether
  \<^verbatim>\<open>process_archives\<close> returns or raises, \<^verbatim>\<open>__exit__\<close> attempts the removal, and the outcome
  is that of the removal:

  \<^item> on a platform that refuses no removal, the temporary directory does not exist once the
    block is left; more generally it does not exist when no location at or below it that
    exists at the end of the body is refused;

  \<^item> a refused removal is swallowed: the block returns or raises what its body did, and
    when a location at or below the temporary directory that exists at the end of the body
    is refused, the temporary directory is left in place;

  \<^item> when the descent exceeds the recursion limit, the block raises \<^verbatim>\<open>RecursionError\<close> in
    place of the outcome of the body, and the temporary directory is left in place.

  (The temporary directory is named by a path without \<open>..\<close>, as \<^verbatim>\<open>mkdtemp\<close> returns it.)
\<close>

theorem temp_dir_released:
  "\<not> path_exists (snd (with_ArchiveMerger (Refuses []) out level fresh ps t c w)) fresh
   \<and> (\<not> list_ex (\<lambda>r. take (length (resolve w fresh)) r = resolve w fresh
                    \<and> nodes (snd (snd (merge_body out level fresh ps t c w))) r \<noteq> None) rs
        \<longrightarrow> \<not> path_exists (snd (with_ArchiveMerger (Refuses rs) out level fresh ps t c w)) fresh)
   \<and> fst (with_ArchiveMerger (Refuses rs) out level fresh ps t c w)
       = fst (merge_body out level fresh ps t c w)
   \<and> (path_exists (snd (snd (merge_body out level fresh ps t c w))) fresh
        \<and> ''..'' \<notin> set (parts fresh)
        \<and> list_ex (\<lambda>r. take (length (resolve w fresh)) r = resolve w fresh
                    \<and> nodes (snd (snd (merge_body out level fresh ps t c w))) r \<noteq> None) rs
        \<longrightarrow> path_exists (snd (with_ArchiveMerger (Refuses rs) out level fresh ps t c w)) fresh)
   \<and> (path_exists (snd (snd (merge_body out level fresh ps t c w))) fresh
        \<and> ''..'' \<notin> set (parts fresh)
        \<longrightarrow> fst (with_ArchiveMerger (Overflows gone) out level fresh ps t c w)
              = Inl RecursionError
            \<and> path_exists (snd (with_ArchiveMerger (Overflows gone) out level fresh ps t c w))
                fresh)"
proof -
  have a: "\<not> path_exists (snd (with_ArchiveMerger (Refuses []) out level fresh ps t c w)) fresh"
    by (rule released_unless_refused) simp
  show ?thesis
    using a released_unless_refused[of w fresh out level ps t c rs]
      refusal_swallowed[of rs out level fresh ps t c w]
      kept_when_refused[of out level fresh ps t c w rs]
      kept_when_overflow[of out level fresh ps t c w gone]
    by blast
qed

theorem temp_dir_released_witness:
  "path_exists (snd (snd (merge_body ex_out 6 ex_temp [Path [] [''b.tgz'']] ''tar'' ''gzip''
                           ex_world))) ex_temp
   \<and> ''..'' \<notin> set (parts ex_temp)
   \<and> list_ex (\<lambda>r. take (length (resolve ex_world ex_temp)) r = resolve ex_world ex_temp
               \<and> nodes (snd (snd (merge_body ex_out 6 ex_temp [Path [] [''b.tgz'']] ''tar''
                                     ''gzip'' ex_world))) r \<noteq> None)
        [[''tmp'', ''archivemaster_k3'', ''y.txt'']]
   \<and> \<not> path_exists
          (snd (with_ArchiveMerger (Refuses []) ex_out 6 ex_temp [Path [] [''b.tgz'']] ''tar''
                  ''gzip'' ex_world)) ex_temp
   \<and> path_exists
        (snd (with_ArchiveMerger (Refuses [[''tmp'', ''archivemaster_k3'', ''y.txt'']]) ex_out 6
                ex_temp [Path [] [''b.tgz'']] ''tar'' ''gzip'' ex_world)) ex_temp
   \<and> fst (with_ArchiveMerger (Overflows []) ex_out 6 ex_temp [Path [] [''b.tgz'']] ''tar''
            ''gzip'' ex_world) = Inl RecursionError
   \<and> path_exists
        (snd (with_ArchiveMerger (Overflows []) ex_out 6 ex_temp [Path [] [''b.tgz'']] ''tar''
                ''gzip'' ex_world)) ex_temp"
proof -
  let ?w2 = "snd (snd (merge_body ex_out 6 ex_temp [Path [] [''b.tgz'']] ''tar'' ''gzip''
                         ex_world))"
  have e: "path_exists ?w2 ex_temp" by code_simp
  have d: "''..'' \<notin> set (parts ex_temp)" by code_simp
  have l: "list_ex (\<lambda>r. take (length (resolve ex_world ex_temp)) r = resolve ex_world ex_temp
               \<and> nodes ?w2 r \<noteq> None) [[''tmp'', ''archivemaster_k3'', ''y.txt'']]"
    by code_simp
  note th = temp_dir_released[of ex_out 6 ex_temp "[Path [] [''b.tgz'']]" "''tar''" "''gzip''"
      ex_world "[[''tmp'', ''archivemaster_k3'', ''y.txt'']]" "[]"]
  have a: "\<not> path_exists
          (snd (with_ArchiveMerger (Refuses []) ex_out 6 ex_temp [Path [] [''b.tgz'']] ''tar''
                  ''gzip'' ex_world)) ex_temp"
    using th by blast
  have b: "path_exists
        (snd (with_ArchiveMerger (Refuses [[''tmp'', ''archivemaster_k3'', ''y.txt'']]) ex_out 6
                ex_temp [Path [] [''b.tgz'']] ''tar'' ''gzip'' ex_world)) ex_temp"
    using th e d l by blast
  have c: "fst (with_ArchiveMerger (Overflows []) ex_out 6 ex_temp [Path [] [''b.tgz'']] ''tar''
            ''gzip'' ex_world) = Inl RecursionError
   \<and> path_exists
        (snd (with_ArchiveMerger (Overflows []) ex_out 6 ex_temp [Path [] [''b.tgz'']] ''tar''
                ''gzip'' ex_world)) ex_temp"
    using th e d by blast
  show ?thesis using e d l a b c by blast
qed


subsection \<open>The count of a successful merge\<close>










end
